theory Spec2Isabelle
  imports Main "HOL-Library.Word" "HOL-Library.Sublist"
begin

section \<open>The group cache of \<^verbatim>\<open>pkg/common/db/cache/group.go\<close>\<close>

subsection \<open>Data\<close>

text \<open>
  The table records of package \<^verbatim>\<open>relation\<close>, whose declarations are not among the
  sources. Only the fields that \<^verbatim>\<open>group.go\<close> reads or writes are kept: \<^verbatim>\<open>GroupID\<close> of
  a group, \<^verbatim>\<open>GroupID\<close> and \<^verbatim>\<open>UserID\<close> of a member, \<^verbatim>\<open>Hash\<close> (uint64) and \<^verbatim>\<open>MemberNum\<close>
  (uint32) of a \<^verbatim>\<open>GroupSimpleUserID\<close>.
\<close>

record GroupModel =
  GroupID :: string

record GroupMemberModel =
  GroupID :: string
  UserID :: string

record GroupSimpleUserID =
  Hash :: "64 word"
  MemberNum :: "32 word"

text \<open>
  Errors as values.
  Modelled from the spec: \<^verbatim>\<open>errIndex\<close>, the package variable the index helpers return,
  is declared in the package's meta-cache file, which is not among the sources. Section
  7: a dedicated not-indexed condition, distinct from not-found.
  \<^verbatim>\<open>ErrRecordNotFound\<close> is the not-found condition of a loader; \<^verbatim>\<open>ErrDecode\<close> is a
  cached value that does not decode at the requested type; \<^verbatim>\<open>ErrOther\<close> stands for
  any other error a collaborator returns. \<^verbatim>\<open>PanicNilFunc\<close> is the run-time panic of
  calling a nil function value: no function of this file recovers, so it unwinds
  through every caller exactly as a returned error that is never swallowed.
\<close>

datatype error = errIndex | ErrRecordNotFound | ErrDecode | ErrOther string | PanicNilFunc

subsection \<open>Key naming\<close>

definition groupInfoKey :: string where
  "groupInfoKey = ''GROUP_INFO:''"

definition groupMemberIDsKey :: string where
  "groupMemberIDsKey = ''GROUP_MEMBER_IDS:''"

definition groupMembersHashKey :: string where
  "groupMembersHashKey = ''GROUP_MEMBERS_HASH2:''"

definition groupMemberInfoKey :: string where
  "groupMemberInfoKey = ''GROUP_MEMBER_INFO:''"

definition joinedGroupsKey :: string where
  "joinedGroupsKey = ''JOIN_GROUPS_KEY:''"

definition groupMemberNumKey :: string where
  "groupMemberNumKey = ''GROUP_MEMBER_NUM_CACHE:''"

text \<open>The key methods do not read their receiver, so the model leaves it out.\<close>

definition getGroupInfoKey :: "string \<Rightarrow> string" where
  "getGroupInfoKey groupID = groupInfoKey @ groupID"

definition getJoinedGroupsKey :: "string \<Rightarrow> string" where
  "getJoinedGroupsKey userID = joinedGroupsKey @ userID"

definition getGroupMembersHashKey :: "string \<Rightarrow> string" where
  "getGroupMembersHashKey groupID = groupMembersHashKey @ groupID"

definition getGroupMemberIDsKey :: "string \<Rightarrow> string" where
  "getGroupMemberIDsKey groupID = groupMemberIDsKey @ groupID"

definition getGroupMemberInfoKey :: "string \<Rightarrow> string \<Rightarrow> string" where
  "getGroupMemberInfoKey groupID userID = groupMemberInfoKey @ groupID @ ''-'' @ userID"

definition getGroupMemberNumKey :: "string \<Rightarrow> string" where
  "getGroupMemberNumKey groupID = groupMemberNumKey @ groupID"

subsection \<open>Index helpers\<close>

text \<open>
  The loop \<^verbatim>\<open>for i, _key := range keys\<close> of both index helpers, with the running
  index \<open>i\<close>: it returns at the first equal key and falls through to \<^verbatim>\<open>errIndex\<close>.
  The helpers take a pointer to the record and read its fields; the model takes the
  record.
\<close>

fun indexLoop :: "string \<Rightarrow> nat \<Rightarrow> string list \<Rightarrow> error + nat" where
  "indexLoop key i [] = Inl errIndex"
| "indexLoop key i (k # ks) = (if k = key then Inr i else indexLoop key (Suc i) ks)"

definition GetGroupIndex :: "GroupModel \<Rightarrow> string list \<Rightarrow> error + nat" where
  "GetGroupIndex grp ks = indexLoop (getGroupInfoKey (GroupModel.GroupID grp)) 0 ks"

definition GetGroupMemberIndex :: "GroupMemberModel \<Rightarrow> string list \<Rightarrow> error + nat" where
  "GetGroupMemberIndex groupMember ks =
     indexLoop (getGroupMemberInfoKey (GroupMemberModel.GroupID groupMember)
                  (GroupMemberModel.UserID groupMember)) 0 ks"

subsection \<open>The cache backend and the get-or-load primitives\<close>

text \<open>
  What a key holds in the backend: one value of the types this file caches (a group, a
  member, a list of IDs, a uint64 hash, an int64 count), stored with the time-to-live
  it was written with. \<^verbatim>\<open>time.Duration\<close> counts nanoseconds.
\<close>

datatype cval =
  GroupVal GroupModel
| MemberVal GroupMemberModel
| StringsVal "string list"
| Uint64Val "64 word"
| Int64Val "64 word"

record entry =
  val :: cval
  ttl :: int

type_synonym backend = "string \<rightharpoonup> entry"

text \<open>
  The type parameter \<^verbatim>\<open>T\<close> of the generic primitives fixes how a value is encoded and
  decoded; the model passes the pair of functions.
\<close>

record 'a codec =
  enc :: "'a \<Rightarrow> cval"
  dec :: "cval \<Rightarrow> 'a option"

definition groupCodec :: "GroupModel codec" where
  "groupCodec = \<lparr>enc = GroupVal, dec = (\<lambda>v. case v of GroupVal x \<Rightarrow> Some x | _ \<Rightarrow> None)\<rparr>"

definition memberCodec :: "GroupMemberModel codec" where
  "memberCodec = \<lparr>enc = MemberVal, dec = (\<lambda>v. case v of MemberVal x \<Rightarrow> Some x | _ \<Rightarrow> None)\<rparr>"

definition stringsCodec :: "string list codec" where
  "stringsCodec = \<lparr>enc = StringsVal, dec = (\<lambda>v. case v of StringsVal x \<Rightarrow> Some x | _ \<Rightarrow> None)\<rparr>"

definition uint64Codec :: "64 word codec" where
  "uint64Codec = \<lparr>enc = Uint64Val, dec = (\<lambda>v. case v of Uint64Val x \<Rightarrow> Some x | _ \<Rightarrow> None)\<rparr>"

definition int64Codec :: "64 word codec" where
  "int64Codec = \<lparr>enc = Int64Val, dec = (\<lambda>v. case v of Int64Val x \<Rightarrow> Some x | _ \<Rightarrow> None)\<rparr>"

text \<open>
  Modelled from the spec: \<^verbatim>\<open>getCache\<close> is defined in the package's meta-cache file,
  which is not among the sources. Section 4.1: a present key is decoded and returned
  with no call to \<open>load\<close>; an absent key calls \<open>load\<close>, stores the result under the
  key with the given ttl on success and returns it; a failing \<open>load\<close> writes nothing
  and its error is returned unchanged. Expiry and the per-key lock belong to the
  backend: an expired key is an absent key here.
\<close>

definition getCache ::
  "'a codec \<Rightarrow> backend \<Rightarrow> string \<Rightarrow> int \<Rightarrow> (unit \<Rightarrow> error + 'a) \<Rightarrow> (error + 'a) \<times> backend" where
  "getCache c rc key expire fn =
     (case rc key of
        Some e \<Rightarrow> (case dec c (val e) of Some v \<Rightarrow> (Inr v, rc) | None \<Rightarrow> (Inl ErrDecode, rc))
      | None \<Rightarrow>
          (case fn () of
             Inl err \<Rightarrow> (Inl err, rc)
           | Inr v \<Rightarrow> (Inr v, rc(key \<mapsto> \<lparr>val = enc c v, ttl = expire\<rparr>))))"

text \<open>
  Modelled from the spec: \<^verbatim>\<open>batchGetCache2\<close> is defined in the same absent file.
  Section 4.2: the single-key primitive for every identifier, successes collected in
  input order; an identifier whose lookup finds nothing is left out and is no error;
  any other failing load fails the whole call.
\<close>

fun batchGetCache2 ::
  "'a codec \<Rightarrow> backend \<Rightarrow> int \<Rightarrow> 'k list \<Rightarrow> ('k \<Rightarrow> string) \<Rightarrow> ('k \<Rightarrow> error + 'a)
     \<Rightarrow> (error + 'a list) \<times> backend" where
  "batchGetCache2 c rc expire [] keyFn fns = (Inr [], rc)"
| "batchGetCache2 c rc expire (k # ks) keyFn fns =
     (case getCache c rc (keyFn k) expire (\<lambda>_. fns k) of
        (Inl err, rc1) \<Rightarrow>
          if err = ErrRecordNotFound then batchGetCache2 c rc1 expire ks keyFn fns
          else (Inl err, rc1)
      | (Inr v, rc1) \<Rightarrow>
          (case batchGetCache2 c rc1 expire ks keyFn fns of
             (Inl err, rc2) \<Rightarrow> (Inl err, rc2)
           | (Inr vs, rc2) \<Rightarrow> (Inr (v # vs), rc2)))"

subsection \<open>The invalidation accumulator\<close>

text \<open>
  Modelled from the spec: the \<^verbatim>\<open>metaCache\<close> interface and \<^verbatim>\<open>NewMetaCacheRedis\<close> are
  defined in the absent meta-cache file. Section 4.3: the accumulator carries a growable
  set of pending delete keys with duplicates collapsed; \<^verbatim>\<open>AddKeys\<close> appends to it and
  touches nothing else; \<^verbatim>\<open>GetPreDelKeys\<close> reads it; \<^verbatim>\<open>ExecDel\<close> (the commit) deletes all
  pending keys from the backend in one batch and clears the set.
\<close>

record metaCacheRedis =
  keys :: "string list"

definition NewMetaCacheRedis :: "string list \<Rightarrow> metaCacheRedis" where
  "NewMetaCacheRedis ks = \<lparr>keys = remdups ks\<rparr>"

definition AddKeys :: "metaCacheRedis \<Rightarrow> string list \<Rightarrow> metaCacheRedis" where
  "AddKeys m ks = m\<lparr>keys := remdups (keys m @ ks)\<rparr>"

definition GetPreDelKeys :: "metaCacheRedis \<Rightarrow> string list" where
  "GetPreDelKeys m = keys m"

definition deleteKeys :: "string list \<Rightarrow> backend \<Rightarrow> backend" where
  "deleteKeys ks rc = fold (\<lambda>k m. m(k := None)) ks rc"

definition ExecDel :: "metaCacheRedis \<Rightarrow> backend \<Rightarrow> metaCacheRedis \<times> backend" where
  "ExecDel m rc = (m\<lparr>keys := []\<rparr>, deleteKeys (keys m) rc)"

subsection \<open>The cache object\<close>

text \<open>
  The persistence interfaces are collaborators: each method is a function from its
  arguments to a result or an error. \<^verbatim>\<open>groupRequestDB\<close> is stored and copied but never
  called. \<^verbatim>\<open>hashCode\<close> is a function value and may be nil. \<^verbatim>\<open>NewCache\<close> hands the
  receiver's \<^verbatim>\<open>rcClient\<close> pointer on, and the cache connection is process-wide: the
  backend behind every \<^verbatim>\<open>rcClient\<close> is the one \<open>backend\<close> component of the program
  state below. The context argument of the methods carries deadlines only and is left
  out.
\<close>

record GroupModelInterface =
  Take :: "string \<Rightarrow> error + GroupModel"

record GroupMemberModelInterface =
  FindMemberUserID :: "string \<Rightarrow> error + string list"
  Take :: "string \<Rightarrow> string \<Rightarrow> error + GroupMemberModel"
  FindUserJoinedGroupID :: "string \<Rightarrow> error + string list"
  TakeGroupMemberNum :: "string \<Rightarrow> error + 64 word"

record GroupCacheRedis =
  metaCache :: metaCacheRedis
  groupDB :: GroupModelInterface
  groupMemberDB :: GroupMemberModelInterface
  groupRequestDB :: unit
  expireTime :: int
  hashCode :: "(string \<Rightarrow> error + 64 word) option"

text \<open>
  The program state: the cache backend, and the store of allocated cache objects. An
  object is named by its address; \<open>nextObj\<close> is the next free address, so an allocation
  never returns the address of a live object.
\<close>

record world =
  backend :: backend
  objs :: "nat \<Rightarrow> GroupCacheRedis"
  nextObj :: nat

definition alloc :: "GroupCacheRedis \<Rightarrow> world \<Rightarrow> nat \<times> world" where
  "alloc g w = (nextObj w, w\<lparr>objs := (objs w)(nextObj w := g), nextObj := Suc (nextObj w)\<rparr>)"

definition Second :: int where
  "Second = 1000000000"

definition groupExpireTime :: int where
  "groupExpireTime = Second * 60 * 60 * 12"

text \<open>
  \<^verbatim>\<open>rockscache.NewClient\<close> only wraps the connection: the constructor allocates the
  object and leaves the backend as it is.
\<close>

definition NewGroupCacheRedis ::
  "GroupModelInterface \<Rightarrow> GroupMemberModelInterface \<Rightarrow> unit
     \<Rightarrow> (string \<Rightarrow> error + 64 word) option \<Rightarrow> world \<Rightarrow> nat \<times> world" where
  "NewGroupCacheRedis gDB gmDB grDB hc w =
     alloc \<lparr>metaCache = NewMetaCacheRedis [], groupDB = gDB, groupMemberDB = gmDB,
            groupRequestDB = grDB, expireTime = groupExpireTime, hashCode = hc\<rparr> w"

text \<open>
  \<^verbatim>\<open>NewCache\<close> copies five fields of the receiver into a new object and gives it a new
  accumulator holding the receiver's pending keys. The composite literal names no
  \<^verbatim>\<open>hashCode\<close>, so the new object's \<^verbatim>\<open>hashCode\<close> is the zero value, nil.
\<close>

definition NewCache :: "nat \<Rightarrow> world \<Rightarrow> nat \<times> world" where
  "NewCache a w =
     (let g = objs w a
      in alloc \<lparr>metaCache = NewMetaCacheRedis (GetPreDelKeys (metaCache g)),
                groupDB = groupDB g, groupMemberDB = groupMemberDB g,
                groupRequestDB = groupRequestDB g, expireTime = expireTime g,
                hashCode = None\<rparr> w)"

text \<open>\<^verbatim>\<open>cache.AddKeys(keys...)\<close> on the object at an address: it updates that object.\<close>

definition objAddKeys :: "nat \<Rightarrow> string list \<Rightarrow> world \<Rightarrow> world" where
  "objAddKeys a ks w =
     w\<lparr>objs := (objs w)(a := (objs w a)\<lparr>metaCache := AddKeys (metaCache (objs w a)) ks\<rparr>)\<rparr>"

text \<open>\<^verbatim>\<open>cache.ExecDel(ctx)\<close> on the object at an address.\<close>

definition objExecDel :: "nat \<Rightarrow> world \<Rightarrow> world" where
  "objExecDel a w =
     (case ExecDel (metaCache (objs w a)) (backend w) of
        (m, rc) \<Rightarrow> w\<lparr>backend := rc, objs := (objs w)(a := (objs w a)\<lparr>metaCache := m\<rparr>)\<rparr>)"

subsection \<open>The invalidation methods\<close>

text \<open>
  Each method takes the address of its receiver and returns the address of the object
  it made. The loops that build \<^verbatim>\<open>keys\<close> append the key of each ID in turn: a \<open>map\<close>.
\<close>

definition DelGroupsInfo :: "nat \<Rightarrow> string list \<Rightarrow> world \<Rightarrow> nat \<times> world" where
  "DelGroupsInfo a groupIDs w =
     (case NewCache a w of
        (newGroupCache, w1) \<Rightarrow>
          (newGroupCache, objAddKeys newGroupCache (map getGroupInfoKey groupIDs) w1))"

definition DelGroupMembersHash :: "nat \<Rightarrow> string \<Rightarrow> world \<Rightarrow> nat \<times> world" where
  "DelGroupMembersHash a groupID w =
     (case NewCache a w of
        (cache, w1) \<Rightarrow> (cache, objAddKeys cache [getGroupMembersHashKey groupID] w1))"

definition DelGroupMemberIDs :: "nat \<Rightarrow> string \<Rightarrow> world \<Rightarrow> nat \<times> world" where
  "DelGroupMemberIDs a groupID w =
     (case NewCache a w of
        (cache, w1) \<Rightarrow> (cache, objAddKeys cache [getGroupMemberIDsKey groupID] w1))"

definition DelJoinedGroupID :: "nat \<Rightarrow> string list \<Rightarrow> world \<Rightarrow> nat \<times> world" where
  "DelJoinedGroupID a userIDs w =
     (let ks = map getJoinedGroupsKey userIDs
      in case NewCache a w of
           (cache, w1) \<Rightarrow> (cache, objAddKeys cache ks w1))"

definition DelGroupMembersInfo :: "nat \<Rightarrow> string \<Rightarrow> string list \<Rightarrow> world \<Rightarrow> nat \<times> world" where
  "DelGroupMembersInfo a groupID userIDs w =
     (let ks = map (getGroupMemberInfoKey groupID) userIDs
      in case NewCache a w of
           (cache, w1) \<Rightarrow> (cache, objAddKeys cache ks w1))"

definition DelGroupsMemberNum :: "nat \<Rightarrow> string list \<Rightarrow> world \<Rightarrow> nat \<times> world" where
  "DelGroupsMemberNum a groupIDs w =
     (let ks = map getGroupMemberNumKey groupIDs
      in case NewCache a w of
           (cache, w1) \<Rightarrow> (cache, objAddKeys cache ks w1))"

subsection \<open>Helpers of the external utility package\<close>

text \<open>
  Modelled from the spec: \<^verbatim>\<open>utils.BothExist\<close> belongs to an external package whose
  source is not available. Section 4.4: the set intersection of the caller-supplied
  list with the cached list, in the order of the cached list. The call site passes
  the caller's list first and the cached list second.
\<close>

definition BothExist :: "string list \<Rightarrow> string list \<Rightarrow> string list" where
  "BothExist userIDs groupMemberIDs = filter (\<lambda>x. x \<in> set userIDs) groupMemberIDs"

text \<open>
  Modelled from the spec: \<^verbatim>\<open>utils.Paginate\<close> belongs to the same external package.
  Section 4.4: the page at offset \<open>pageNumber \<times> showNumber\<close> of length \<open>showNumber\<close>,
  shorter or empty where the list ends; a non-positive page size or a negative page
  number selects nothing. (The example of section 8 counts pages from 1, the formula
  of section 4.4 from 0; the model follows the formula.) The one call site passes the
  same value for both numbers, so their order plays no part there.
\<close>

definition Paginate :: "'a list \<Rightarrow> int \<Rightarrow> int \<Rightarrow> 'a list" where
  "Paginate es pageNumber showNumber =
     (if showNumber \<le> 0 \<or> pageNumber < 0 then []
      else take (nat showNumber) (drop (nat (pageNumber * showNumber)) es))"

subsection \<open>The read methods\<close>

text \<open>
  A read method reads fields of its receiver and talks to the backend: it takes the
  receiver's value and the backend, and returns its result with the backend it leaves.
\<close>

definition GetGroupsInfo ::
  "GroupCacheRedis \<Rightarrow> backend \<Rightarrow> string list \<Rightarrow> (error + GroupModel list) \<times> backend" where
  "GetGroupsInfo g rc groupIDs =
     batchGetCache2 groupCodec rc (expireTime g) groupIDs
       (\<lambda>groupID. getGroupInfoKey groupID)
       (\<lambda>groupID. GroupModelInterface.Take (groupDB g) groupID)"

definition GetGroupInfo ::
  "GroupCacheRedis \<Rightarrow> backend \<Rightarrow> string \<Rightarrow> (error + GroupModel) \<times> backend" where
  "GetGroupInfo g rc groupID =
     getCache groupCodec rc (getGroupInfoKey groupID) (expireTime g)
       (\<lambda>_. GroupModelInterface.Take (groupDB g) groupID)"

text \<open>The loader calls \<^verbatim>\<open>g.hashCode\<close>; calling it when it is nil panics.\<close>

definition GetGroupMembersHash ::
  "GroupCacheRedis \<Rightarrow> backend \<Rightarrow> string \<Rightarrow> (error + 64 word) \<times> backend" where
  "GetGroupMembersHash g rc groupID =
     getCache uint64Codec rc (getGroupMembersHashKey groupID) (expireTime g)
       (\<lambda>_. case hashCode g of None \<Rightarrow> Inl PanicNilFunc | Some h \<Rightarrow> h groupID)"

definition GetGroupMemberNum ::
  "GroupCacheRedis \<Rightarrow> backend \<Rightarrow> string \<Rightarrow> (error + 64 word) \<times> backend" where
  "GetGroupMemberNum g rc groupID =
     getCache int64Codec rc (getGroupMemberNumKey groupID) (expireTime g)
       (\<lambda>_. TakeGroupMemberNum (groupMemberDB g) groupID)"

text \<open>
  The loop of \<^verbatim>\<open>GetGroupMemberHashMap\<close> over the group IDs, with the map \<open>res\<close> built
  so far. \<^verbatim>\<open>uint32(num)\<close> keeps the low 32 bits of the int64 count. The log line
  between the two lookups has no part in the result.
\<close>

fun hashMapLoop ::
  "GroupCacheRedis \<Rightarrow> backend \<Rightarrow> (string \<rightharpoonup> GroupSimpleUserID) \<Rightarrow> string list
     \<Rightarrow> (error + (string \<rightharpoonup> GroupSimpleUserID)) \<times> backend" where
  "hashMapLoop g rc res [] = (Inr res, rc)"
| "hashMapLoop g rc res (groupID # groupIDs) =
     (case GetGroupMembersHash g rc groupID of
        (Inl err, rc1) \<Rightarrow> (Inl err, rc1)
      | (Inr hash, rc1) \<Rightarrow>
          (case GetGroupMemberNum g rc1 groupID of
             (Inl err, rc2) \<Rightarrow> (Inl err, rc2)
           | (Inr num, rc2) \<Rightarrow>
               hashMapLoop g rc2 (res(groupID \<mapsto> \<lparr>Hash = hash, MemberNum = ucast num\<rparr>))
                 groupIDs))"

definition GetGroupMemberHashMap ::
  "GroupCacheRedis \<Rightarrow> backend \<Rightarrow> string list
     \<Rightarrow> (error + (string \<rightharpoonup> GroupSimpleUserID)) \<times> backend" where
  "GetGroupMemberHashMap g rc groupIDs = hashMapLoop g rc Map.empty groupIDs"

definition GetGroupMemberIDs ::
  "GroupCacheRedis \<Rightarrow> backend \<Rightarrow> string \<Rightarrow> (error + string list) \<times> backend" where
  "GetGroupMemberIDs g rc groupID =
     getCache stringsCodec rc (getGroupMemberIDsKey groupID) (expireTime g)
       (\<lambda>_. FindMemberUserID (groupMemberDB g) groupID)"

fun memberIDsLoop ::
  "GroupCacheRedis \<Rightarrow> backend \<Rightarrow> (string \<rightharpoonup> string list) \<Rightarrow> string list
     \<Rightarrow> (error + (string \<rightharpoonup> string list)) \<times> backend" where
  "memberIDsLoop g rc m [] = (Inr m, rc)"
| "memberIDsLoop g rc m (groupID # groupIDs) =
     (case GetGroupMemberIDs g rc groupID of
        (Inl err, rc1) \<Rightarrow> (Inl err, rc1)
      | (Inr userIDs, rc1) \<Rightarrow> memberIDsLoop g rc1 (m(groupID \<mapsto> userIDs)) groupIDs)"

definition GetGroupsMemberIDs ::
  "GroupCacheRedis \<Rightarrow> backend \<Rightarrow> string list
     \<Rightarrow> (error + (string \<rightharpoonup> string list)) \<times> backend" where
  "GetGroupsMemberIDs g rc groupIDs = memberIDsLoop g rc Map.empty groupIDs"

definition GetJoinedGroupIDs ::
  "GroupCacheRedis \<Rightarrow> backend \<Rightarrow> string \<Rightarrow> (error + string list) \<times> backend" where
  "GetJoinedGroupIDs g rc userID =
     getCache stringsCodec rc (getJoinedGroupsKey userID) (expireTime g)
       (\<lambda>_. FindUserJoinedGroupID (groupMemberDB g) userID)"

definition GetGroupMemberInfo ::
  "GroupCacheRedis \<Rightarrow> backend \<Rightarrow> string \<Rightarrow> string
     \<Rightarrow> (error + GroupMemberModel) \<times> backend" where
  "GetGroupMemberInfo g rc groupID userID =
     getCache memberCodec rc (getGroupMemberInfoKey groupID userID) (expireTime g)
       (\<lambda>_. GroupMemberModelInterface.Take (groupMemberDB g) groupID userID)"

definition GetGroupMembersInfo ::
  "GroupCacheRedis \<Rightarrow> backend \<Rightarrow> string \<Rightarrow> string list
     \<Rightarrow> (error + GroupMemberModel list) \<times> backend" where
  "GetGroupMembersInfo g rc groupID userIDs =
     batchGetCache2 memberCodec rc (expireTime g) userIDs
       (\<lambda>userID. getGroupMemberInfoKey groupID userID)
       (\<lambda>userID. GroupMemberModelInterface.Take (groupMemberDB g) groupID userID)"

text \<open>
  The candidate list of \<^verbatim>\<open>GetGroupMembersPage\<close> (its lines 282 to 286): a non-nil
  \<^verbatim>\<open>userIDs\<close> is replaced by \<^verbatim>\<open>BothExist(userIDs, groupMemberIDs)\<close>, a nil one by the
  cached list. \<open>None\<close> is the nil slice.
\<close>

definition pageCandidates :: "string list option \<Rightarrow> string list \<Rightarrow> string list" where
  "pageCandidates userIDs groupMemberIDs =
     (case userIDs of
        Some us \<Rightarrow> BothExist us groupMemberIDs
      | None \<Rightarrow> groupMemberIDs)"

text \<open>
  \<^verbatim>\<open>GetGroupMembersPage\<close> returns three values, and the total also beside an error of
  the batch call. Both arguments of \<^verbatim>\<open>Paginate\<close> are \<^verbatim>\<open>int(showNumber)\<close>, as in the
  source; \<^verbatim>\<open>pageNumber\<close> is not read. A nil slice and an empty one are both \<open>[]\<close>.
\<close>

definition GetGroupMembersPage ::
  "GroupCacheRedis \<Rightarrow> backend \<Rightarrow> string \<Rightarrow> string list option \<Rightarrow> 32 word \<Rightarrow> 32 word
     \<Rightarrow> (32 word \<times> GroupMemberModel list \<times> error option) \<times> backend" where
  "GetGroupMembersPage g rc groupID userIDs showNumber pageNumber =
     (case GetGroupMemberIDs g rc groupID of
        (Inl err, rc1) \<Rightarrow> ((0, [], Some err), rc1)
      | (Inr groupMemberIDs, rc1) \<Rightarrow>
          (let userIDs' = pageCandidates userIDs groupMemberIDs
           in case GetGroupMembersInfo g rc1 groupID
                     (Paginate userIDs' (sint showNumber) (sint showNumber)) of
                (Inl err, rc2) \<Rightarrow> ((of_nat (length userIDs'), [], Some err), rc2)
              | (Inr groupMembers, rc2) \<Rightarrow>
                  ((of_nat (length userIDs'), groupMembers, None), rc2)))"

definition GetAllGroupMembersInfo ::
  "GroupCacheRedis \<Rightarrow> backend \<Rightarrow> string \<Rightarrow> (error + GroupMemberModel list) \<times> backend" where
  "GetAllGroupMembersInfo g rc groupID =
     (case GetGroupMemberIDs g rc groupID of
        (Inl err, rc1) \<Rightarrow> (Inl err, rc1)
      | (Inr groupMemberIDs, rc1) \<Rightarrow> GetGroupMembersInfo g rc1 groupID groupMemberIDs)"

definition GetAllGroupMemberInfo ::
  "GroupCacheRedis \<Rightarrow> backend \<Rightarrow> string \<Rightarrow> (error + GroupMemberModel list) \<times> backend" where
  "GetAllGroupMemberInfo g rc groupID =
     (case GetGroupMemberIDs g rc groupID of
        (Inl err, rc1) \<Rightarrow> (Inl err, rc1)
      | (Inr groupMemberIDs, rc1) \<Rightarrow> GetGroupMembersInfo g rc1 groupID groupMemberIDs)"

subsection \<open>Calls through the interface\<close>

text \<open>
  The six invalidation methods of the \<^verbatim>\<open>GroupCache\<close> interface as one type of calls,
  with the dispatch to the method and the keys each method computes from its
  arguments. \<open>callDels\<close> runs any sequence of such calls, each on a receiver of its
  own.
\<close>

datatype delCall =
  CallDelGroupsInfo "string list"
| CallDelGroupMembersHash string
| CallDelGroupMemberIDs string
| CallDelJoinedGroupID "string list"
| CallDelGroupMembersInfo string "string list"
| CallDelGroupsMemberNum "string list"

fun callDel :: "delCall \<Rightarrow> nat \<Rightarrow> world \<Rightarrow> nat \<times> world" where
  "callDel (CallDelGroupsInfo groupIDs) a w = DelGroupsInfo a groupIDs w"
| "callDel (CallDelGroupMembersHash groupID) a w = DelGroupMembersHash a groupID w"
| "callDel (CallDelGroupMemberIDs groupID) a w = DelGroupMemberIDs a groupID w"
| "callDel (CallDelJoinedGroupID userIDs) a w = DelJoinedGroupID a userIDs w"
| "callDel (CallDelGroupMembersInfo groupID userIDs) a w = DelGroupMembersInfo a groupID userIDs w"
| "callDel (CallDelGroupsMemberNum groupIDs) a w = DelGroupsMemberNum a groupIDs w"

fun callKeys :: "delCall \<Rightarrow> string list" where
  "callKeys (CallDelGroupsInfo groupIDs) = map getGroupInfoKey groupIDs"
| "callKeys (CallDelGroupMembersHash groupID) = [getGroupMembersHashKey groupID]"
| "callKeys (CallDelGroupMemberIDs groupID) = [getGroupMemberIDsKey groupID]"
| "callKeys (CallDelJoinedGroupID userIDs) = map getJoinedGroupsKey userIDs"
| "callKeys (CallDelGroupMembersInfo groupID userIDs) = map (getGroupMemberInfoKey groupID) userIDs"
| "callKeys (CallDelGroupsMemberNum groupIDs) = map getGroupMemberNumKey groupIDs"

fun callDels :: "(delCall \<times> nat) list \<Rightarrow> world \<Rightarrow> world" where
  "callDels [] w = w"
| "callDels ((c, a) # cs) w = callDels cs (snd (callDel c a w))"

definition pendingKeys :: "world \<Rightarrow> nat \<Rightarrow> string list" where
  "pendingKeys w a = GetPreDelKeys (metaCache (objs w a))"

text \<open>
  The read methods as one type of calls, with the backend each leaves. (The two
  spellings \<^verbatim>\<open>GetAllGroupMembersInfo\<close> and \<^verbatim>\<open>GetAllGroupMemberInfo\<close> have the same body.)
\<close>

datatype readCall =
  CallGetGroupsInfo "string list"
| CallGetGroupInfo string
| CallGetGroupMembersHash string
| CallGetGroupMemberHashMap "string list"
| CallGetGroupMemberIDs string
| CallGetGroupsMemberIDs "string list"
| CallGetJoinedGroupIDs string
| CallGetGroupMemberInfo string string
| CallGetGroupMembersInfo string "string list"
| CallGetAllGroupMembersInfo string
| CallGetAllGroupMemberInfo string
| CallGetGroupMembersPage string "string list option" "32 word" "32 word"
| CallGetGroupMemberNum string

fun callRead :: "readCall \<Rightarrow> GroupCacheRedis \<Rightarrow> backend \<Rightarrow> backend" where
  "callRead (CallGetGroupsInfo groupIDs) g rc = snd (GetGroupsInfo g rc groupIDs)"
| "callRead (CallGetGroupInfo groupID) g rc = snd (GetGroupInfo g rc groupID)"
| "callRead (CallGetGroupMembersHash groupID) g rc = snd (GetGroupMembersHash g rc groupID)"
| "callRead (CallGetGroupMemberHashMap groupIDs) g rc = snd (GetGroupMemberHashMap g rc groupIDs)"
| "callRead (CallGetGroupMemberIDs groupID) g rc = snd (GetGroupMemberIDs g rc groupID)"
| "callRead (CallGetGroupsMemberIDs groupIDs) g rc = snd (GetGroupsMemberIDs g rc groupIDs)"
| "callRead (CallGetJoinedGroupIDs userID) g rc = snd (GetJoinedGroupIDs g rc userID)"
| "callRead (CallGetGroupMemberInfo groupID userID) g rc =
     snd (GetGroupMemberInfo g rc groupID userID)"
| "callRead (CallGetGroupMembersInfo groupID userIDs) g rc =
     snd (GetGroupMembersInfo g rc groupID userIDs)"
| "callRead (CallGetAllGroupMembersInfo groupID) g rc = snd (GetAllGroupMembersInfo g rc groupID)"
| "callRead (CallGetAllGroupMemberInfo groupID) g rc = snd (GetAllGroupMemberInfo g rc groupID)"
| "callRead (CallGetGroupMembersPage groupID userIDs showNumber pageNumber) g rc =
     snd (GetGroupMembersPage g rc groupID userIDs showNumber pageNumber)"
| "callRead (CallGetGroupMemberNum groupID) g rc = snd (GetGroupMemberNum g rc groupID)"

text \<open>
  What the batch primitive accepts of one lookup: a value, or the not-found error,
  which it leaves out of its result.
\<close>

definition valueOrNotFound :: "(error + 'a) \<Rightarrow> bool" where
  "valueOrNotFound r = (case r of Inl err \<Rightarrow> err = ErrRecordNotFound | Inr v \<Rightarrow> True)"

text \<open>
  \<open>writesWithTTL t rc rc'\<close>: every key of \<open>rc'\<close> holds what it held in \<open>rc\<close>, or an
  entry stored with time-to-live \<open>t\<close>.
\<close>

definition writesWithTTL :: "int \<Rightarrow> backend \<Rightarrow> backend \<Rightarrow> bool" where
  "writesWithTTL t rc rc' = (\<forall>k. rc' k = rc k \<or> (\<exists>e. rc' k = Some e \<and> ttl e = t))"

text \<open>
  The program states that the operations of this file produce: from an empty backend
  and no object, by the constructor, and by \<^verbatim>\<open>NewCache\<close>, an invalidation call, a
  commit or a read on a live object.
\<close>

inductive reachable :: "world \<Rightarrow> bool" where
  start: "reachable \<lparr>backend = Map.empty, objs = os, nextObj = 0\<rparr>"
| construct: "reachable w \<Longrightarrow> reachable (snd (NewGroupCacheRedis gDB gmDB grDB hc w))"
| newCache: "reachable w \<Longrightarrow> a < nextObj w \<Longrightarrow> reachable (snd (NewCache a w))"
| del: "reachable w \<Longrightarrow> a < nextObj w \<Longrightarrow> reachable (snd (callDel c a w))"
| commit: "reachable w \<Longrightarrow> a < nextObj w \<Longrightarrow> reachable (objExecDel a w)"
| read: "reachable w \<Longrightarrow> a < nextObj w
           \<Longrightarrow> reachable (w\<lparr>backend := callRead r (objs w a) (backend w)\<rparr>)"

subsection \<open>A small installation\<close>

text \<open>
  A store with one group of ten members \<open>u0\<close> to \<open>u9\<close>, every member record present,
  a hash function that answers 7, and a cache object made by the constructor at
  address 0 over an empty backend.
\<close>

definition exGroupDB :: GroupModelInterface where
  "exGroupDB = \<lparr>GroupModelInterface.Take = (\<lambda>groupID. Inr \<lparr>GroupModel.GroupID = groupID\<rparr>)\<rparr>"

definition exMemberIDs :: "string list" where
  "exMemberIDs = [''u0'', ''u1'', ''u2'', ''u3'', ''u4'', ''u5'', ''u6'', ''u7'', ''u8'', ''u9'']"

definition exMemberDB :: GroupMemberModelInterface where
  "exMemberDB =
     \<lparr>FindMemberUserID = (\<lambda>groupID. Inr exMemberIDs),
      Take = (\<lambda>groupID userID. Inr \<lparr>GroupID = groupID, UserID = userID\<rparr>),
      FindUserJoinedGroupID = (\<lambda>userID. Inr [''g1'']),
      TakeGroupMemberNum = (\<lambda>groupID. Inr 10)\<rparr>"

definition exHashCode :: "string \<Rightarrow> error + 64 word" where
  "exHashCode groupID = Inr 7"

definition exEmpty :: world where
  "exEmpty =
     \<lparr>backend = Map.empty,
      objs = (\<lambda>_. \<lparr>metaCache = \<lparr>keys = []\<rparr>, groupDB = exGroupDB, groupMemberDB = exMemberDB,
                    groupRequestDB = (), expireTime = 0, hashCode = None\<rparr>),
      nextObj = 0\<rparr>"

definition exWorld :: world where
  "exWorld = snd (NewGroupCacheRedis exGroupDB exMemberDB () (Some exHashCode) exEmpty)"

definition exCache :: GroupCacheRedis where
  "exCache = objs exWorld 0"

text \<open>
  The same installation after one read of group \<open>g1\<close>, and two chained invalidation
  calls on it: \<^verbatim>\<open>DelGroupsInfo("g1")\<close> on the constructed object, then
  \<^verbatim>\<open>DelGroupMemberIDs("g1")\<close> on the accumulator the first call returned.
\<close>

definition exWarm :: world where
  "exWarm = exWorld\<lparr>backend := callRead (CallGetGroupInfo ''g1'') (objs exWorld 0) (backend exWorld)\<rparr>"

definition exDel1 :: "nat \<times> world" where
  "exDel1 = callDel (CallDelGroupsInfo [''g1'']) 0 exWarm"

definition exDel2 :: "nat \<times> world" where
  "exDel2 = callDel (CallDelGroupMemberIDs ''g1'') (fst exDel1) (snd exDel1)"

section \<open>Properties\<close>

subsection \<open>Allocation and the invalidation calls\<close>

lemma alloc_simps:
  "fst (alloc g w) = nextObj w"
  "backend (snd (alloc g w)) = backend w"
  "nextObj (snd (alloc g w)) = Suc (nextObj w)"
  "objs (snd (alloc g w)) = (objs w)(nextObj w := g)"
  by (simp_all add: alloc_def)

lemma NewCache_simps:
  "fst (NewCache a w) = nextObj w"
  "backend (snd (NewCache a w)) = backend w"
  "nextObj (snd (NewCache a w)) = Suc (nextObj w)"
  "objs (snd (NewCache a w)) =
     (objs w)(nextObj w := \<lparr>metaCache = NewMetaCacheRedis (GetPreDelKeys (metaCache (objs w a))),
                groupDB = groupDB (objs w a), groupMemberDB = groupMemberDB (objs w a),
                groupRequestDB = groupRequestDB (objs w a), expireTime = expireTime (objs w a),
                hashCode = None\<rparr>)"
  by (simp_all add: NewCache_def Let_def alloc_simps)

lemma objAddKeys_simps:
  "backend (objAddKeys a ks w) = backend w"
  "nextObj (objAddKeys a ks w) = nextObj w"
  "objs (objAddKeys a ks w)
     = (objs w)(a := (objs w a)\<lparr>metaCache := AddKeys (metaCache (objs w a)) ks\<rparr>)"
  by (simp_all add: objAddKeys_def)

text \<open>Every invalidation method is: \<^verbatim>\<open>NewCache\<close>, then \<^verbatim>\<open>AddKeys\<close> of its keys on the new object.\<close>

lemma callDel_eq:
  "callDel c a w = (nextObj w, objAddKeys (nextObj w) (callKeys c) (snd (NewCache a w)))"
  by (cases c)
     (simp_all add: DelGroupsInfo_def DelGroupMembersHash_def DelGroupMemberIDs_def
        DelJoinedGroupID_def DelGroupMembersInfo_def DelGroupsMemberNum_def
        split_beta Let_def NewCache_simps)

lemma callDel_fst: "fst (callDel c a w) = nextObj w"
  by (simp add: callDel_eq)

lemma callDel_backend: "backend (snd (callDel c a w)) = backend w"
  by (simp add: callDel_eq objAddKeys_simps NewCache_simps)

lemma callDel_old: "a' \<noteq> nextObj w \<Longrightarrow> objs (snd (callDel c a w)) a' = objs w a'"
  by (simp add: callDel_eq objAddKeys_simps NewCache_simps)

lemma callDel_new_pending:
  "set (pendingKeys (snd (callDel c a w)) (nextObj w)) = set (pendingKeys w a) \<union> set (callKeys c)"
  by (simp add: callDel_eq objAddKeys_simps NewCache_simps pendingKeys_def GetPreDelKeys_def
      AddKeys_def NewMetaCacheRedis_def)

lemma deleteKeys_apply: "deleteKeys ks rc k = (if k \<in> set ks then None else rc k)"
  unfolding deleteKeys_def by (induction ks arbitrary: rc) auto

lemma objExecDel_backend:
  "backend (objExecDel a w) k = (if k \<in> set (pendingKeys w a) then None else backend w k)"
  by (simp add: objExecDel_def ExecDel_def pendingKeys_def GetPreDelKeys_def deleteKeys_apply)

subsection \<open>The small installation, evaluated\<close>

lemma groupExpireTime_value: "groupExpireTime = 43200000000000"
  by (simp add: groupExpireTime_def Second_def)

lemma exWorld_simps:
  "nextObj exWorld = 1"
  "backend exWorld = Map.empty"
  "objs exWorld 0 = \<lparr>metaCache = \<lparr>keys = []\<rparr>, groupDB = exGroupDB, groupMemberDB = exMemberDB,
        groupRequestDB = (), expireTime = groupExpireTime, hashCode = Some exHashCode\<rparr>"
  by (simp_all add: exWorld_def exEmpty_def NewGroupCacheRedis_def alloc_def NewMetaCacheRedis_def)

lemma exCache_simps:
  "groupMemberDB exCache = exMemberDB"
  "groupDB exCache = exGroupDB"
  "expireTime exCache = groupExpireTime"
  "hashCode exCache = Some exHashCode"
  by (simp_all add: exCache_def exWorld_simps)

lemma ex_GetGroupMemberIDs:
  "GetGroupMemberIDs exCache Map.empty ''g1''
     = (Inr exMemberIDs,
        [getGroupMemberIDsKey ''g1'' \<mapsto> \<lparr>val = StringsVal exMemberIDs, ttl = groupExpireTime\<rparr>])"
  by (simp add: GetGroupMemberIDs_def getCache_def exCache_simps exMemberDB_def stringsCodec_def)

lemma ex_member_miss:
  "rc (getGroupMemberInfoKey ''g1'' u) = None \<Longrightarrow>
   getCache memberCodec rc (getGroupMemberInfoKey ''g1'' u) t
      (\<lambda>_. GroupMemberModelInterface.Take exMemberDB ''g1'' u)
    = (Inr \<lparr>GroupID = ''g1'', UserID = u\<rparr>,
       rc(getGroupMemberInfoKey ''g1'' u
            \<mapsto> \<lparr>val = MemberVal \<lparr>GroupID = ''g1'', UserID = u\<rparr>, ttl = t\<rparr>))"
  by (simp add: getCache_def exMemberDB_def memberCodec_def)

lemma memberIDs_key_not_memberInfo_key:
  "getGroupMemberIDsKey a \<noteq> getGroupMemberInfoKey b c"
  by (simp add: getGroupMemberIDsKey_def getGroupMemberInfoKey_def groupMemberIDsKey_def
      groupMemberInfoKey_def)

lemma exWarm_simps:
  "nextObj exWarm = 1"
  "objs exWarm = objs exWorld"
  "backend exWarm
     = [''GROUP_INFO:g1'' \<mapsto> \<lparr>val = GroupVal \<lparr>GroupModel.GroupID = ''g1''\<rparr>, ttl = groupExpireTime\<rparr>]"
  by (simp_all add: exWarm_def exWorld_simps GetGroupInfo_def getCache_def exGroupDB_def
      groupCodec_def getGroupInfoKey_def groupInfoKey_def)

subsection \<open>Key naming\<close>

text \<open>
  Claim C8. For every group ID and user ID the computed cache keys are the fixed prefix
  followed by the identifier: \<open>GROUP_INFO:\<close>, \<open>GROUP_MEMBER_IDS:\<close>,
  \<open>GROUP_MEMBERS_HASH2:\<close> and \<open>GROUP_MEMBER_NUM_CACHE:\<close> followed by the group ID,
  \<open>JOIN_GROUPS_KEY:\<close> followed by the user ID, and \<open>GROUP_MEMBER_INFO:\<close> followed by the
  group ID, a dash and the user ID.
\<close>

theorem cache_keys_are_prefix_plus_id:
  "getGroupInfoKey groupID = ''GROUP_INFO:'' @ groupID
   \<and> getGroupMemberIDsKey groupID = ''GROUP_MEMBER_IDS:'' @ groupID
   \<and> getGroupMembersHashKey groupID = ''GROUP_MEMBERS_HASH2:'' @ groupID
   \<and> getJoinedGroupsKey userID = ''JOIN_GROUPS_KEY:'' @ userID
   \<and> getGroupMemberNumKey groupID = ''GROUP_MEMBER_NUM_CACHE:'' @ groupID
   \<and> getGroupMemberInfoKey groupID userID = ''GROUP_MEMBER_INFO:'' @ groupID @ ''-'' @ userID"
  by (simp add: getGroupInfoKey_def getGroupMemberIDsKey_def getGroupMembersHashKey_def
      getJoinedGroupsKey_def getGroupMemberNumKey_def getGroupMemberInfoKey_def
      groupInfoKey_def groupMemberIDsKey_def groupMembersHashKey_def joinedGroupsKey_def
      groupMemberNumKey_def groupMemberInfoKey_def)

subsection \<open>Index helpers\<close>

lemma indexLoop_absent: "key \<notin> set ks \<Longrightarrow> indexLoop key i ks = Inl errIndex"
  by (induction ks arbitrary: i) auto

lemma indexLoop_present:
  "key \<in> set ks \<Longrightarrow>
     \<exists>n. indexLoop key i ks = Inr (i + n) \<and> n < length ks \<and> ks ! n = key
          \<and> key \<notin> set (take n ks)"
proof (induction ks arbitrary: i)
  case Nil
  then show ?case by simp
next
  case (Cons k ks)
  show ?case
  proof (cases "k = key")
    case True
    then show ?thesis by (intro exI [of _ 0]) simp
  next
    case False
    with Cons.prems have "key \<in> set ks" by simp
    from Cons.IH [OF this, of "Suc i"] obtain n where
      n: "indexLoop key (Suc i) ks = Inr (Suc i + n)" "n < length ks" "ks ! n = key"
         "key \<notin> set (take n ks)"
      by blast
    with False show ?thesis by (intro exI [of _ "Suc n"]) auto
  qed
qed

text \<open>
  Claim C7. For every group (and every group member) and every key list, the index
  helper returns, with no error, the position of the first occurrence of the item's
  cache key when the key is in the list (the key stands at that position and at no
  earlier one), and returns the dedicated error \<^verbatim>\<open>errIndex\<close>, which is not the
  not-found error, when the key is not in the list.
\<close>

theorem index_of_first_occurrence_or_errIndex:
  "(let key = getGroupInfoKey (GroupModel.GroupID grp) in
     if key \<in> set ks
     then \<exists>n. GetGroupIndex grp ks = Inr n \<and> n < length ks \<and> ks ! n = key
              \<and> key \<notin> set (take n ks)
     else GetGroupIndex grp ks = Inl errIndex)
   \<and> (let key = getGroupMemberInfoKey (GroupMemberModel.GroupID gm) (GroupMemberModel.UserID gm) in
     if key \<in> set ks'
     then \<exists>n. GetGroupMemberIndex gm ks' = Inr n \<and> n < length ks' \<and> ks' ! n = key
              \<and> key \<notin> set (take n ks')
     else GetGroupMemberIndex gm ks' = Inl errIndex)
   \<and> errIndex \<noteq> ErrRecordNotFound"
  using indexLoop_present [of _ _ 0] indexLoop_absent [of _ _ 0]
  by (simp add: GetGroupIndex_def GetGroupMemberIndex_def Let_def)

theorem index_of_first_occurrence_or_errIndex_witness:
  "GetGroupIndex \<lparr>GroupModel.GroupID = ''g2''\<rparr>
       [''GROUP_INFO:g1'', ''GROUP_INFO:g2'', ''GROUP_INFO:g2''] = Inr 1
   \<and> GetGroupIndex \<lparr>GroupModel.GroupID = ''g3''\<rparr>
       [''GROUP_INFO:g1'', ''GROUP_INFO:g2'', ''GROUP_INFO:g2''] = Inl errIndex
   \<and> GetGroupMemberIndex \<lparr>GroupID = ''g1'', UserID = ''u2''\<rparr>
       [''GROUP_MEMBER_INFO:g1-u1'', ''GROUP_MEMBER_INFO:g1-u2''] = Inr 1
   \<and> GetGroupMemberIndex \<lparr>GroupID = ''g1'', UserID = ''u3''\<rparr>
       [''GROUP_MEMBER_INFO:g1-u1'', ''GROUP_MEMBER_INFO:g1-u2''] = Inl errIndex"
proof -
  note t1 = index_of_first_occurrence_or_errIndex
    [of "\<lparr>GroupModel.GroupID = ''g2''\<rparr>" "[''GROUP_INFO:g1'', ''GROUP_INFO:g2'', ''GROUP_INFO:g2'']"
        "\<lparr>GroupID = ''g1'', UserID = ''u2''\<rparr>"
        "[''GROUP_MEMBER_INFO:g1-u1'', ''GROUP_MEMBER_INFO:g1-u2'']"]
  note t2 = index_of_first_occurrence_or_errIndex
    [of "\<lparr>GroupModel.GroupID = ''g3''\<rparr>" "[''GROUP_INFO:g1'', ''GROUP_INFO:g2'', ''GROUP_INFO:g2'']"
        "\<lparr>GroupID = ''g1'', UserID = ''u3''\<rparr>"
        "[''GROUP_MEMBER_INFO:g1-u1'', ''GROUP_MEMBER_INFO:g1-u2'']"]
  have a: "GetGroupIndex \<lparr>GroupModel.GroupID = ''g2''\<rparr>
       [''GROUP_INFO:g1'', ''GROUP_INFO:g2'', ''GROUP_INFO:g2''] = Inr 1"
    by (simp add: GetGroupIndex_def getGroupInfoKey_def groupInfoKey_def)
  have b: "GetGroupMemberIndex \<lparr>GroupID = ''g1'', UserID = ''u2''\<rparr>
       [''GROUP_MEMBER_INFO:g1-u1'', ''GROUP_MEMBER_INFO:g1-u2''] = Inr 1"
    by (simp add: GetGroupMemberIndex_def getGroupMemberInfoKey_def groupMemberInfoKey_def)
  have c: "GetGroupIndex \<lparr>GroupModel.GroupID = ''g3''\<rparr>
       [''GROUP_INFO:g1'', ''GROUP_INFO:g2'', ''GROUP_INFO:g2''] = Inl errIndex"
    using t2 by (simp add: getGroupInfoKey_def groupInfoKey_def)
  have d: "GetGroupMemberIndex \<lparr>GroupID = ''g1'', UserID = ''u3''\<rparr>
       [''GROUP_MEMBER_INFO:g1-u1'', ''GROUP_MEMBER_INFO:g1-u2''] = Inl errIndex"
    using t2 by (simp add: getGroupMemberInfoKey_def groupMemberInfoKey_def)
  show ?thesis using a b c d by simp
qed

subsection \<open>The invalidation accumulator\<close>

text \<open>
  Claim C2. For every live cache object \<open>g\<close> with pending keys \<open>P\<close> and every
  invalidation method, the call returns a new accumulator, at an address other than
  \<open>g\<close>'s, whose pending set is \<open>P\<close> united with the keys computed from the given IDs,
  and leaves \<open>g\<close> and its pending set as they were. A second invalidation call on the
  returned accumulator yields one accumulator holding \<open>P\<close> and the keys of both calls,
  and committing that accumulator deletes the keys of both calls from the backend,
  also those added by the first link of the chain.
\<close>

theorem del_returns_new_accumulator:
  assumes "a < nextObj w"
  shows "(case callDel c a w of
            (a1, w1) \<Rightarrow>
              a1 \<noteq> a
              \<and> set (pendingKeys w1 a1) = set (pendingKeys w a) \<union> set (callKeys c)
              \<and> objs w1 a = objs w a
              \<and> pendingKeys w1 a = pendingKeys w a
              \<and> (case callDel c' a1 w1 of
                    (a2, w2) \<Rightarrow>
                      set (pendingKeys w2 a2)
                        = set (pendingKeys w a) \<union> set (callKeys c) \<union> set (callKeys c')
                      \<and> (\<forall>k \<in> set (callKeys c) \<union> set (callKeys c').
                            backend (objExecDel a2 w2) k = None)))"
proof -
  obtain a1 w1 where c1: "callDel c a w = (a1, w1)" by (cases "callDel c a w")
  obtain a2 w2 where c2: "callDel c' a1 w1 = (a2, w2)" by (cases "callDel c' a1 w1")
  have a1: "a1 = nextObj w" and w1: "w1 = snd (callDel c a w)"
    using c1 callDel_fst [of c a w] by simp_all
  have a2: "a2 = nextObj w1" and w2: "w2 = snd (callDel c' a1 w1)"
    using c2 callDel_fst [of c' a1 w1] by simp_all
  have ne: "a1 \<noteq> a" using assms a1 by simp
  have p1: "set (pendingKeys w1 a1) = set (pendingKeys w a) \<union> set (callKeys c)"
    unfolding a1 w1 by (rule callDel_new_pending)
  have old: "objs w1 a = objs w a"
    unfolding w1 using ne a1 by (simp add: callDel_old)
  have p2: "set (pendingKeys w2 a2)
              = set (pendingKeys w a) \<union> set (callKeys c) \<union> set (callKeys c')"
    unfolding a2 w2 using callDel_new_pending [of c' a1 w1] p1 by simp
  have del: "\<forall>k \<in> set (callKeys c) \<union> set (callKeys c'). backend (objExecDel a2 w2) k = None"
    using p2 by (simp add: objExecDel_backend)
  show ?thesis
    using ne p1 old p2 del by (simp add: c1 c2 pendingKeys_def)
qed

theorem del_returns_new_accumulator_witness:
  "0 < nextObj exWarm
   \<and> backend exWarm ''GROUP_INFO:g1''
       = Some \<lparr>val = GroupVal \<lparr>GroupModel.GroupID = ''g1''\<rparr>, ttl = groupExpireTime\<rparr>
   \<and> fst exDel1 = 1
   \<and> set (pendingKeys (snd exDel1) (fst exDel1)) = {''GROUP_INFO:g1''}
   \<and> pendingKeys (snd exDel1) 0 = []
   \<and> set (pendingKeys (snd exDel2) (fst exDel2)) = {''GROUP_INFO:g1'', ''GROUP_MEMBER_IDS:g1''}
   \<and> backend (objExecDel (fst exDel2) (snd exDel2)) ''GROUP_INFO:g1'' = None"
proof -
  have live: "0 < nextObj exWarm" by (simp add: exWarm_simps)
  have p0: "pendingKeys exWarm 0 = []"
    by (simp add: pendingKeys_def GetPreDelKeys_def exWarm_simps exWorld_simps)
  have k1: "callKeys (CallDelGroupsInfo [''g1'']) = [''GROUP_INFO:g1'']"
    by (simp add: getGroupInfoKey_def groupInfoKey_def)
  have k2: "callKeys (CallDelGroupMemberIDs ''g1'') = [''GROUP_MEMBER_IDS:g1'']"
    by (simp add: getGroupMemberIDsKey_def groupMemberIDsKey_def)
  have f: "fst exDel1 = 1"
    unfolding exDel1_def callDel_fst by (simp add: exWarm_simps)
  note t = del_returns_new_accumulator
    [OF live, of "CallDelGroupsInfo [''g1'']" "CallDelGroupMemberIDs ''g1''"]
  have "set (pendingKeys (snd exDel1) (fst exDel1)) = {''GROUP_INFO:g1''}
      \<and> pendingKeys (snd exDel1) 0 = []
      \<and> set (pendingKeys (snd exDel2) (fst exDel2)) = {''GROUP_INFO:g1'', ''GROUP_MEMBER_IDS:g1''}
      \<and> backend (objExecDel (fst exDel2) (snd exDel2)) ''GROUP_INFO:g1'' = None"
    using t unfolding exDel2_def exDel1_def k1 k2 p0
    by (auto simp: split_beta)
  then show ?thesis using live f by (simp add: exWarm_simps)
qed

text \<open>
  Claim C9. No invalidation method touches the cache backend: after any number of
  invalidation calls, each on any receiver, the backend is what it was before them. The
  commit is what changes it: it removes the pending keys of the committed accumulator
  and nothing else.
\<close>

theorem del_calls_leave_backend_unchanged:
  "backend (callDels cs w) = backend w
   \<and> backend (objExecDel a (callDels cs w)) k
       = (if k \<in> set (pendingKeys (callDels cs w) a) then None else backend w k)"
proof -
  have b: "backend (callDels cs w) = backend w"
  proof (induction cs arbitrary: w)
    case Nil
    show ?case by simp
  next
    case (Cons x cs)
    obtain c a where x: "x = (c, a)" by (cases x)
    show ?case by (simp add: x Cons.IH callDel_backend)
  qed
  then show ?thesis by (simp add: objExecDel_backend)
qed

subsection \<open>The hash loader of a derived cache\<close>

lemma nil_hashCode_panics:
  "hashCode g = None \<Longrightarrow> rc (getGroupMembersHashKey groupID) = None
     \<Longrightarrow> GetGroupMembersHash g rc groupID = (Inl PanicNilFunc, rc)"
  by (simp add: GetGroupMembersHash_def getCache_def)

text \<open>
  Claim C4. The object that \<^verbatim>\<open>NewCache\<close> makes, and so the accumulator that any
  invalidation method returns, has a nil \<^verbatim>\<open>hashCode\<close>, whatever the receiver's is; on
  a cache miss of the group's hash key, \<^verbatim>\<open>GetGroupMembersHash\<close> on such an object calls
  the nil function and panics, leaving the backend as it was.
\<close>

theorem derived_cache_has_nil_hashCode:
  "hashCode (objs (snd (NewCache a w)) (fst (NewCache a w))) = None
   \<and> hashCode (objs (snd (callDel c a w)) (fst (callDel c a w))) = None
   \<and> (backend w (getGroupMembersHashKey groupID) = None \<longrightarrow>
        GetGroupMembersHash (objs (snd (NewCache a w)) (fst (NewCache a w)))
            (backend (snd (NewCache a w))) groupID
          = (Inl PanicNilFunc, backend w)
        \<and> GetGroupMembersHash (objs (snd (callDel c a w)) (fst (callDel c a w)))
            (backend (snd (callDel c a w))) groupID
          = (Inl PanicNilFunc, backend w))"
proof -
  have h1: "hashCode (objs (snd (NewCache a w)) (fst (NewCache a w))) = None"
    by (simp add: NewCache_simps)
  have h2: "hashCode (objs (snd (callDel c a w)) (fst (callDel c a w))) = None"
    by (simp add: callDel_eq objAddKeys_simps NewCache_simps)
  show ?thesis
    using h1 h2 by (simp add: nil_hashCode_panics NewCache_simps(2) callDel_backend)
qed

theorem derived_cache_has_nil_hashCode_witness:
  "backend exWorld (getGroupMembersHashKey ''g1'') = None
   \<and> fst (GetGroupMembersHash (objs exWorld 0) (backend exWorld) ''g1'') = Inr 7
   \<and> fst (GetGroupMembersHash
            (objs (snd (callDel (CallDelGroupMembersHash ''g1'') 0 exWorld))
               (fst (callDel (CallDelGroupMembersHash ''g1'') 0 exWorld)))
            (backend (snd (callDel (CallDelGroupMembersHash ''g1'') 0 exWorld))) ''g1'')
       = Inl PanicNilFunc"
proof -
  have h: "backend exWorld (getGroupMembersHashKey ''g1'') = None"
    by (simp add: exWorld_simps)
  have orig: "fst (GetGroupMembersHash (objs exWorld 0) (backend exWorld) ''g1'') = Inr 7"
    by (simp add: exWorld_simps GetGroupMembersHash_def getCache_def exHashCode_def)
  have "GetGroupMembersHash
            (objs (snd (callDel (CallDelGroupMembersHash ''g1'') 0 exWorld))
               (fst (callDel (CallDelGroupMembersHash ''g1'') 0 exWorld)))
            (backend (snd (callDel (CallDelGroupMembersHash ''g1'') 0 exWorld))) ''g1''
          = (Inl PanicNilFunc, backend exWorld)"
    using derived_cache_has_nil_hashCode [of 0 exWorld "CallDelGroupMembersHash ''g1''" "''g1''"] h
    by blast
  then show ?thesis using h orig by simp
qed

subsection \<open>The member page\<close>

text \<open>The method never reads \<^verbatim>\<open>pageNumber\<close>: any two page numbers give the same result.\<close>

lemma GetGroupMembersPage_pageNumber_unused:
  "GetGroupMembersPage g rc groupID userIDs showNumber pageNumber
     = GetGroupMembersPage g rc groupID userIDs showNumber pageNumber'"
  by (simp add: GetGroupMembersPage_def)

text \<open>
  Claim C1 says that \<^verbatim>\<open>GetGroupMembersPage\<close> returns the page of member records that
  starts at offset \<open>pageNumber \<times> showNumber\<close> and has length \<open>showNumber\<close>, with the
  total candidate count, and in particular total 10 and the first three members for a
  ten-member group, a nil \<^verbatim>\<open>userIDs\<close>, \<open>showNumber = 3\<close> and \<open>pageNumber = 1\<close>. The code
  does not: it passes \<^verbatim>\<open>int(showNumber)\<close> for both the page number and the page size.
  On the ten-member group the call with \<open>showNumber = 3\<close> and \<open>pageNumber = 1\<close> returns
  total 10 and the page \<open>Paginate(ids, 3, 3)\<close>, which holds the single member at offset
  9 and not the first three members; \<open>pageNumber = 0\<close> returns the very same page.
\<close>

theorem page_call_passes_showNumber_as_pageNumber:
  "fst (GetGroupMembersPage exCache Map.empty ''g1'' None 3 1)
     = (10, [\<lparr>GroupID = ''g1'', UserID = ''u9''\<rparr>], None)
   \<and> fst (GetGroupMembersPage exCache Map.empty ''g1'' None 3 0)
     = (10, [\<lparr>GroupID = ''g1'', UserID = ''u9''\<rparr>], None)"
proof -
  have p: "Paginate exMemberIDs 3 3 = [''u9'']"
    by (simp add: Paginate_def exMemberIDs_def)
  have b: "fst (GetGroupMembersInfo exCache
        [getGroupMemberIDsKey ''g1'' \<mapsto> \<lparr>val = StringsVal exMemberIDs, ttl = groupExpireTime\<rparr>]
        ''g1'' [''u9'']) = Inr [\<lparr>GroupID = ''g1'', UserID = ''u9''\<rparr>]"
    by (simp add: GetGroupMembersInfo_def exCache_simps ex_member_miss
        memberIDs_key_not_memberInfo_key [symmetric])
  have l: "length exMemberIDs = 10" by (simp add: exMemberIDs_def)
  have "fst (GetGroupMembersPage exCache Map.empty ''g1'' None 3 pageNumber)
     = (10, [\<lparr>GroupID = ''g1'', UserID = ''u9''\<rparr>], None)" for pageNumber
    using b by (auto simp: GetGroupMembersPage_def ex_GetGroupMemberIDs pageCandidates_def p l
        split: prod.splits sum.splits)
  then show ?thesis by simp
qed

text \<open>
  Claim C3. For every non-nil caller-supplied \<^verbatim>\<open>userIDs\<close> and every cached member-ID
  list that \<^verbatim>\<open>GetGroupMemberIDs\<close> returns, the candidate list of \<^verbatim>\<open>GetGroupMembersPage\<close>
  has as its elements the intersection of the two lists, and is the cached list with
  the other members filtered out: a subsequence of the cached list, in its order. It is
  the list whose length is the total and whose page is loaded.
\<close>

theorem page_candidates_are_cached_order_intersection:
  assumes "GetGroupMemberIDs g rc groupID = (Inr groupMemberIDs, rc1)"
  shows "set (pageCandidates (Some userIDs) groupMemberIDs) = set userIDs \<inter> set groupMemberIDs
    \<and> pageCandidates (Some userIDs) groupMemberIDs = filter (\<lambda>x. x \<in> set userIDs) groupMemberIDs
    \<and> subseq (pageCandidates (Some userIDs) groupMemberIDs) groupMemberIDs
    \<and> GetGroupMembersPage g rc groupID (Some userIDs) showNumber pageNumber
        = (case GetGroupMembersInfo g rc1 groupID
                  (Paginate (pageCandidates (Some userIDs) groupMemberIDs)
                     (sint showNumber) (sint showNumber)) of
             (Inl err, rc2) \<Rightarrow>
               ((of_nat (length (pageCandidates (Some userIDs) groupMemberIDs)), [], Some err), rc2)
           | (Inr groupMembers, rc2) \<Rightarrow>
               ((of_nat (length (pageCandidates (Some userIDs) groupMemberIDs)), groupMembers, None),
                rc2))"
proof -
  have s: "set (pageCandidates (Some userIDs) groupMemberIDs) = set userIDs \<inter> set groupMemberIDs"
    by (auto simp: pageCandidates_def BothExist_def)
  have f: "pageCandidates (Some userIDs) groupMemberIDs
             = filter (\<lambda>x. x \<in> set userIDs) groupMemberIDs"
    by (simp add: pageCandidates_def BothExist_def)
  have q: "subseq (pageCandidates (Some userIDs) groupMemberIDs) groupMemberIDs"
    unfolding f by (rule subseq_filter_left)
  have p: "GetGroupMembersPage g rc groupID (Some userIDs) showNumber pageNumber
        = (case GetGroupMembersInfo g rc1 groupID
                  (Paginate (pageCandidates (Some userIDs) groupMemberIDs)
                     (sint showNumber) (sint showNumber)) of
             (Inl err, rc2) \<Rightarrow>
               ((of_nat (length (pageCandidates (Some userIDs) groupMemberIDs)), [], Some err), rc2)
           | (Inr groupMembers, rc2) \<Rightarrow>
               ((of_nat (length (pageCandidates (Some userIDs) groupMemberIDs)), groupMembers, None),
                rc2))"
    by (simp add: GetGroupMembersPage_def assms Let_def split: prod.splits sum.splits)
  show ?thesis using s f q p by blast
qed

theorem page_candidates_are_cached_order_intersection_witness:
  "GetGroupMemberIDs exCache Map.empty ''g1''
     = (Inr exMemberIDs,
        [getGroupMemberIDsKey ''g1'' \<mapsto> \<lparr>val = StringsVal exMemberIDs, ttl = groupExpireTime\<rparr>])
   \<and> pageCandidates (Some [''u5'', ''zz'', ''u2'']) exMemberIDs = [''u2'', ''u5'']
   \<and> fst (fst (GetGroupMembersPage exCache Map.empty ''g1'' (Some [''u5'', ''zz'', ''u2'']) 3 0)) = 2"
proof -
  note t = page_candidates_are_cached_order_intersection [OF ex_GetGroupMemberIDs,
      of "[''u5'', ''zz'', ''u2'']" 3 0]
  have c: "pageCandidates (Some [''u5'', ''zz'', ''u2'']) exMemberIDs = [''u2'', ''u5'']"
    using t by (simp add: exMemberIDs_def)
  have e: "GetGroupMembersPage exCache Map.empty ''g1'' (Some [''u5'', ''zz'', ''u2'']) 3 0
        = (case GetGroupMembersInfo exCache
              [getGroupMemberIDsKey ''g1'' \<mapsto> \<lparr>val = StringsVal exMemberIDs, ttl = groupExpireTime\<rparr>]
              ''g1'' (Paginate [''u2'', ''u5''] (sint (3 :: 32 word)) (sint (3 :: 32 word))) of
             (Inl err, rc2) \<Rightarrow> ((of_nat (length [''u2'', ''u5'']), [], Some err), rc2)
           | (Inr groupMembers, rc2) \<Rightarrow>
               ((of_nat (length [''u2'', ''u5'']), groupMembers, None), rc2))"
    using t unfolding c by blast
  have "fst (fst (GetGroupMembersPage exCache Map.empty ''g1'' (Some [''u5'', ''zz'', ''u2'']) 3 0)) = 2"
    unfolding e by (simp split: prod.splits sum.splits)
  then show ?thesis using c ex_GetGroupMemberIDs by simp
qed

text \<open>
  Claim C6. For every group whose cached member-ID list \<^verbatim>\<open>GetGroupMemberIDs\<close> returns,
  and every non-nil caller-supplied \<^verbatim>\<open>userIDs\<close> that shares no element with it,
  \<^verbatim>\<open>GetGroupMembersPage\<close> returns total 0, no member and a nil error, whatever the page
  size and number.
\<close>

theorem empty_intersection_is_not_an_error:
  assumes "GetGroupMemberIDs g rc groupID = (Inr groupMemberIDs, rc1)"
    and "set userIDs \<inter> set groupMemberIDs = {}"
  shows "GetGroupMembersPage g rc groupID (Some userIDs) showNumber pageNumber
           = ((0, [], None), rc1)"
proof -
  have "filter (\<lambda>x. x \<in> set userIDs) groupMemberIDs = []"
    using assms(2) by (auto simp: filter_empty_conv)
  then have c: "pageCandidates (Some userIDs) groupMemberIDs = []"
    by (simp add: pageCandidates_def BothExist_def)
  have p: "Paginate ([] :: string list) (sint showNumber) (sint showNumber) = []"
    by (simp add: Paginate_def)
  show ?thesis
    by (simp add: GetGroupMembersPage_def assms(1) c p GetGroupMembersInfo_def)
qed

theorem empty_intersection_is_not_an_error_witness:
  "set [''zz'', ''yy''] \<inter> set exMemberIDs = {}
   \<and> fst (GetGroupMembersPage exCache Map.empty ''g1'' (Some [''zz'', ''yy'']) 3 0) = (0, [], None)"
proof -
  have d: "set [''zz'', ''yy''] \<inter> set exMemberIDs = {}"
    by (simp add: exMemberIDs_def)
  show ?thesis
    using empty_intersection_is_not_an_error [OF ex_GetGroupMemberIDs d, of 3 0] d by simp
qed

subsection \<open>Time-to-live\<close>

lemma writesWithTTL_refl: "writesWithTTL t rc rc"
  by (simp add: writesWithTTL_def)

lemma writesWithTTL_trans:
  "writesWithTTL t rc rc1 \<Longrightarrow> writesWithTTL t rc1 rc2 \<Longrightarrow> writesWithTTL t rc rc2"
  unfolding writesWithTTL_def by metis

lemma getCache_writes: "writesWithTTL t rc (snd (getCache c rc key t fn))"
  by (auto simp: getCache_def writesWithTTL_def split: option.splits sum.splits)

lemma batchGetCache2_writes: "writesWithTTL t rc (snd (batchGetCache2 c rc t ks keyFn fns))"
proof (induction ks arbitrary: rc)
  case Nil
  show ?case by (simp add: writesWithTTL_refl)
next
  case (Cons k ks)
  obtain r rc1 where g: "getCache c rc (keyFn k) t (\<lambda>_. fns k) = (r, rc1)"
    by (cases "getCache c rc (keyFn k) t (\<lambda>_. fns k)")
  have w1: "writesWithTTL t rc rc1"
    using getCache_writes [of t rc c "keyFn k" "\<lambda>_. fns k"] g by simp
  have w2: "writesWithTTL t rc1 (snd (batchGetCache2 c rc1 t ks keyFn fns))"
    by (rule Cons.IH)
  have w3: "writesWithTTL t rc (snd (batchGetCache2 c rc1 t ks keyFn fns))"
    by (rule writesWithTTL_trans [OF w1 w2])
  show ?case
    using w1 w3 by (auto simp: g split: sum.splits prod.splits)
qed

lemma GetGroupMembersHash_writes:
  "writesWithTTL (expireTime g) rc (snd (GetGroupMembersHash g rc x))"
  by (simp add: GetGroupMembersHash_def getCache_writes)

lemma GetGroupMemberNum_writes:
  "writesWithTTL (expireTime g) rc (snd (GetGroupMemberNum g rc x))"
  by (simp add: GetGroupMemberNum_def getCache_writes)

lemma GetGroupMemberIDs_writes:
  "writesWithTTL (expireTime g) rc (snd (GetGroupMemberIDs g rc x))"
  by (simp add: GetGroupMemberIDs_def getCache_writes)

lemma GetGroupMembersInfo_writes:
  "writesWithTTL (expireTime g) rc (snd (GetGroupMembersInfo g rc x us))"
  by (simp add: GetGroupMembersInfo_def batchGetCache2_writes)

lemma hashMapLoop_writes: "writesWithTTL (expireTime g) rc (snd (hashMapLoop g rc res ids))"
proof (induction ids arbitrary: rc res)
  case Nil
  show ?case by (simp add: writesWithTTL_refl)
next
  case (Cons x ids)
  obtain r1 rc1 where h: "GetGroupMembersHash g rc x = (r1, rc1)"
    by (cases "GetGroupMembersHash g rc x")
  obtain r2 rc2 where n: "GetGroupMemberNum g rc1 x = (r2, rc2)"
    by (cases "GetGroupMemberNum g rc1 x")
  have w1: "writesWithTTL (expireTime g) rc rc1"
    using GetGroupMembersHash_writes [of g rc x] h by simp
  have w2: "writesWithTTL (expireTime g) rc1 rc2"
    using GetGroupMemberNum_writes [of g rc1 x] n by simp
  have w12: "writesWithTTL (expireTime g) rc rc2"
    by (rule writesWithTTL_trans [OF w1 w2])
  have w3: "\<And>res'. writesWithTTL (expireTime g) rc (snd (hashMapLoop g rc2 res' ids))"
    by (rule writesWithTTL_trans [OF w12 Cons.IH])
  show ?case
    using w1 w12 w3 by (auto simp: h n split: sum.splits)
qed

lemma memberIDsLoop_writes: "writesWithTTL (expireTime g) rc (snd (memberIDsLoop g rc m ids))"
proof (induction ids arbitrary: rc m)
  case Nil
  show ?case by (simp add: writesWithTTL_refl)
next
  case (Cons x ids)
  obtain r1 rc1 where h: "GetGroupMemberIDs g rc x = (r1, rc1)"
    by (cases "GetGroupMemberIDs g rc x")
  have w1: "writesWithTTL (expireTime g) rc rc1"
    using GetGroupMemberIDs_writes [of g rc x] h by simp
  have w3: "\<And>m'. writesWithTTL (expireTime g) rc (snd (memberIDsLoop g rc1 m' ids))"
    by (rule writesWithTTL_trans [OF w1 Cons.IH])
  show ?case
    using w1 w3 by (auto simp: h split: sum.splits)
qed

lemma GetAllGroupMembersInfo_writes:
  "writesWithTTL (expireTime g) rc (snd (GetAllGroupMembersInfo g rc x))"
proof -
  obtain r1 rc1 where h: "GetGroupMemberIDs g rc x = (r1, rc1)"
    by (cases "GetGroupMemberIDs g rc x")
  have w1: "writesWithTTL (expireTime g) rc rc1"
    using GetGroupMemberIDs_writes [of g rc x] h by simp
  have w2: "\<And>us. writesWithTTL (expireTime g) rc (snd (GetGroupMembersInfo g rc1 x us))"
    by (rule writesWithTTL_trans [OF w1 GetGroupMembersInfo_writes])
  show ?thesis
    using w1 w2 by (auto simp: GetAllGroupMembersInfo_def h split: sum.splits)
qed

lemma GetGroupMembersPage_writes:
  "writesWithTTL (expireTime g) rc (snd (GetGroupMembersPage g rc x us s p))"
proof -
  obtain r1 rc1 where h: "GetGroupMemberIDs g rc x = (r1, rc1)"
    by (cases "GetGroupMemberIDs g rc x")
  have w1: "writesWithTTL (expireTime g) rc rc1"
    using GetGroupMemberIDs_writes [of g rc x] h by simp
  have w2: "\<And>us. writesWithTTL (expireTime g) rc (snd (GetGroupMembersInfo g rc1 x us))"
    by (rule writesWithTTL_trans [OF w1 GetGroupMembersInfo_writes])
  show ?thesis
  proof (cases r1)
    case (Inl e)
    then show ?thesis using w1 by (simp add: GetGroupMembersPage_def h)
  next
    case (Inr ids)
    obtain r2 rc2 where b: "GetGroupMembersInfo g rc1 x
        (Paginate (pageCandidates us ids) (sint s) (sint s)) = (r2, rc2)"
      by (cases "GetGroupMembersInfo g rc1 x (Paginate (pageCandidates us ids) (sint s) (sint s))")
    have "writesWithTTL (expireTime g) rc rc2"
      using w2 [of "Paginate (pageCandidates us ids) (sint s) (sint s)"] b by simp
    then show ?thesis
      by (auto simp: GetGroupMembersPage_def h Inr b Let_def split: sum.splits)
  qed
qed

lemma callRead_writes: "writesWithTTL (expireTime g) rc (callRead r g rc)"
proof (cases r)
  case (CallGetGroupMembersPage x us s p)
  then show ?thesis by (simp add: GetGroupMembersPage_writes)
next
  case (CallGetAllGroupMemberInfo x)
  have "GetAllGroupMemberInfo g rc x = GetAllGroupMembersInfo g rc x"
    by (simp add: GetAllGroupMemberInfo_def GetAllGroupMembersInfo_def)
  then show ?thesis using CallGetAllGroupMemberInfo by (simp add: GetAllGroupMembersInfo_writes)
qed (simp_all add: GetGroupsInfo_def GetGroupInfo_def GetJoinedGroupIDs_def
       GetGroupMemberInfo_def GetGroupMemberHashMap_def GetGroupsMemberIDs_def
       getCache_writes batchGetCache2_writes GetGroupMembersHash_writes
       GetGroupMemberNum_writes GetGroupMemberIDs_writes GetGroupMembersInfo_writes
       hashMapLoop_writes memberIDsLoop_writes GetAllGroupMembersInfo_writes)

text \<open>
  In every state the program reaches, every live object has the constructor's
  \<^verbatim>\<open>expireTime\<close>, and every entry of the backend was stored with it.
\<close>

lemma reachable_ttl:
  "reachable w \<Longrightarrow>
     (\<forall>a < nextObj w. expireTime (objs w a) = groupExpireTime)
     \<and> (\<forall>k e. backend w k = Some e \<longrightarrow> ttl e = groupExpireTime)"
proof (induction rule: reachable.induct)
  case (start os)
  show ?case by simp
next
  case (construct w gDB gmDB grDB hc)
  then show ?case
    by (simp add: NewGroupCacheRedis_def alloc_simps less_Suc_eq)
next
  case (newCache w a)
  then show ?case
    by (simp add: NewCache_simps less_Suc_eq)
next
  case (del w a c)
  then show ?case
    by (simp add: callDel_eq objAddKeys_simps NewCache_simps less_Suc_eq)
next
  case (commit w a)
  then show ?case
    by (auto simp: objExecDel_def ExecDel_def deleteKeys_apply split: if_splits)
next
  case (read w a r)
  have e: "expireTime (objs w a) = groupExpireTime"
    using read by simp
  have "writesWithTTL groupExpireTime (backend w) (callRead r (objs w a) (backend w))"
    using callRead_writes [of "objs w a" "backend w" r] e by simp
  then have wr: "\<And>k. callRead r (objs w a) (backend w) k = backend w k
      \<or> (\<exists>e. callRead r (objs w a) (backend w) k = Some e \<and> ttl e = groupExpireTime)"
    unfolding writesWithTTL_def by blast
  have b: "\<And>k e. callRead r (objs w a) (backend w) k = Some e \<Longrightarrow> ttl e = groupExpireTime"
  proof -
    fix k e assume s: "callRead r (objs w a) (backend w) k = Some e"
    from wr [of k] show "ttl e = groupExpireTime"
    proof
      assume "callRead r (objs w a) (backend w) k = backend w k"
      with s have "backend w k = Some e" by simp
      with read show ?thesis by blast
    next
      assume "\<exists>e. callRead r (objs w a) (backend w) k = Some e \<and> ttl e = groupExpireTime"
      with s show ?thesis by simp
    qed
  qed
  show ?case
    using read.IH b by simp
qed

subsection \<open>The hash map of several groups\<close>

lemma map_le_Some: "m1 \<subseteq>\<^sub>m m2 \<Longrightarrow> m1 k = Some v \<Longrightarrow> m2 k = Some v"
  by (metis domI map_le_def)

lemma getCache_Inr:
  assumes "getCache c rc key t fn = (Inr v, rc')" and "\<And>x. dec c (enc c x) = Some x"
  shows "rc \<subseteq>\<^sub>m rc' \<and> (\<exists>e. rc' key = Some e \<and> dec c (val e) = Some v)"
  using assms
  by (auto simp: getCache_def map_le_def split: option.splits sum.splits)

lemma getCache_hit:
  "rc key = Some e \<Longrightarrow> dec c (val e) = Some v \<Longrightarrow> getCache c rc key t fn = (Inr v, rc)"
  by (simp add: getCache_def)

lemma getCache_Inl: "getCache c rc key t fn = (Inl err, rc') \<Longrightarrow> rc' = rc"
  by (auto simp: getCache_def split: option.splits sum.splits)

lemma getCache_other: "k \<noteq> key \<Longrightarrow> snd (getCache c rc key t fn) k = rc k"
  by (auto simp: getCache_def split: option.splits sum.splits)

lemma getCache_fst_cong:
  "rc1 key = rc2 key \<Longrightarrow> fst (getCache c rc1 key t fn) = fst (getCache c rc2 key t fn)"
  by (auto simp: getCache_def split: option.splits sum.splits)

lemma hash_Inr:
  assumes "GetGroupMembersHash g rc x = (Inr h, rc1)"
  shows "rc \<subseteq>\<^sub>m rc1
    \<and> (\<exists>e. rc1 (getGroupMembersHashKey x) = Some e \<and> dec uint64Codec (val e) = Some h)"
  using assms unfolding GetGroupMembersHash_def
  by (rule getCache_Inr) (simp add: uint64Codec_def)

lemma num_Inr:
  assumes "GetGroupMemberNum g rc x = (Inr n, rc1)"
  shows "rc \<subseteq>\<^sub>m rc1
    \<and> (\<exists>e. rc1 (getGroupMemberNumKey x) = Some e \<and> dec int64Codec (val e) = Some n)"
  using assms unfolding GetGroupMemberNum_def
  by (rule getCache_Inr) (simp add: int64Codec_def)

lemma hash_hit:
  "rc (getGroupMembersHashKey x) = Some e \<Longrightarrow> dec uint64Codec (val e) = Some h
     \<Longrightarrow> GetGroupMembersHash g rc x = (Inr h, rc)"
  unfolding GetGroupMembersHash_def by (rule getCache_hit)

lemma num_hit:
  "rc (getGroupMemberNumKey x) = Some e \<Longrightarrow> dec int64Codec (val e) = Some n
     \<Longrightarrow> GetGroupMemberNum g rc x = (Inr n, rc)"
  unfolding GetGroupMemberNum_def by (rule getCache_hit)

lemma hash_Inl: "GetGroupMembersHash g rc x = (Inl err, rc1) \<Longrightarrow> rc1 = rc"
  unfolding GetGroupMembersHash_def by (rule getCache_Inl)

lemma num_Inl: "GetGroupMemberNum g rc x = (Inl err, rc1) \<Longrightarrow> rc1 = rc"
  unfolding GetGroupMemberNum_def by (rule getCache_Inl)

lemma hashMapLoop_step:
  "GetGroupMembersHash g rc x = (Inr h, rc1) \<Longrightarrow> GetGroupMemberNum g rc1 x = (Inr n, rc2)
     \<Longrightarrow> hashMapLoop g rc res (x # xs)
          = hashMapLoop g rc2 (res(x \<mapsto> \<lparr>Hash = h, MemberNum = ucast n\<rparr>)) xs"
  by simp

lemma hashMapLoop_Inr_cases:
  assumes "hashMapLoop g rc res (x # xs) = (Inr m, rc')"
  obtains h rc1 n rc2 where "GetGroupMembersHash g rc x = (Inr h, rc1)"
    and "GetGroupMemberNum g rc1 x = (Inr n, rc2)"
    and "hashMapLoop g rc2 (res(x \<mapsto> \<lparr>Hash = h, MemberNum = ucast n\<rparr>)) xs = (Inr m, rc')"
  using assms by (auto split: prod.splits sum.splits)

lemma hashMapLoop_Inr:
  "hashMapLoop g rc res ids = (Inr m, rc') \<Longrightarrow>
     rc \<subseteq>\<^sub>m rc' \<and> dom m = dom res \<union> set ids
     \<and> (\<forall>x. x \<notin> set ids \<longrightarrow> m x = res x)
     \<and> (\<forall>x \<in> set ids. \<exists>h n eh en.
           rc' (getGroupMembersHashKey x) = Some eh \<and> dec uint64Codec (val eh) = Some h
           \<and> rc' (getGroupMemberNumKey x) = Some en \<and> dec int64Codec (val en) = Some n
           \<and> m x = Some \<lparr>Hash = h, MemberNum = ucast n\<rparr>)"
proof (induction ids arbitrary: rc res)
  case Nil
  then show ?case by simp
next
  case (Cons x xs)
  from Cons.prems obtain h rc1 n rc2 where
    h: "GetGroupMembersHash g rc x = (Inr h, rc1)" and
    n: "GetGroupMemberNum g rc1 x = (Inr n, rc2)" and
    l: "hashMapLoop g rc2 (res(x \<mapsto> \<lparr>Hash = h, MemberNum = ucast n\<rparr>)) xs = (Inr m, rc')"
    by (rule hashMapLoop_Inr_cases)
  let ?res = "res(x \<mapsto> \<lparr>Hash = h, MemberNum = ucast n\<rparr>)"
  from hash_Inr [OF h] obtain eh where
    le1: "rc \<subseteq>\<^sub>m rc1" and eh: "rc1 (getGroupMembersHashKey x) = Some eh"
      "dec uint64Codec (val eh) = Some h"
    by blast
  from num_Inr [OF n] obtain en where
    le2: "rc1 \<subseteq>\<^sub>m rc2" and en: "rc2 (getGroupMemberNumKey x) = Some en"
      "dec int64Codec (val en) = Some n"
    by blast
  from Cons.IH [OF l] have
    le3: "rc2 \<subseteq>\<^sub>m rc'" and d: "dom m = dom ?res \<union> set xs" and
    out: "\<forall>y. y \<notin> set xs \<longrightarrow> m y = ?res y" and
    inn: "\<forall>y \<in> set xs. \<exists>h n eh en.
           rc' (getGroupMembersHashKey y) = Some eh \<and> dec uint64Codec (val eh) = Some h
           \<and> rc' (getGroupMemberNumKey y) = Some en \<and> dec int64Codec (val en) = Some n
           \<and> m y = Some \<lparr>Hash = h, MemberNum = ucast n\<rparr>"
    by blast+
  have le: "rc \<subseteq>\<^sub>m rc'"
    using le1 le2 le3 by (blast intro: map_le_trans)
  have d': "dom m = dom res \<union> set (x # xs)"
    using d by auto
  have out': "\<forall>y. y \<notin> set (x # xs) \<longrightarrow> m y = res y"
    using out by simp
  have hx: "rc' (getGroupMembersHashKey x) = Some eh"
    using eh(1) le2 le3 by (blast intro: map_le_Some)
  have nx: "rc' (getGroupMemberNumKey x) = Some en"
    using en(1) le3 by (blast intro: map_le_Some)
  have here: "\<exists>h n eh en.
           rc' (getGroupMembersHashKey x) = Some eh \<and> dec uint64Codec (val eh) = Some h
           \<and> rc' (getGroupMemberNumKey x) = Some en \<and> dec int64Codec (val en) = Some n
           \<and> m x = Some \<lparr>Hash = h, MemberNum = ucast n\<rparr>"
  proof (cases "x \<in> set xs")
    case True
    with inn show ?thesis by blast
  next
    case False
    with out have "m x = Some \<lparr>Hash = h, MemberNum = ucast n\<rparr>" by simp
    with hx nx eh(2) en(2) show ?thesis by blast
  qed
  have inn': "\<forall>y \<in> set (x # xs). \<exists>h n eh en.
           rc' (getGroupMembersHashKey y) = Some eh \<and> dec uint64Codec (val eh) = Some h
           \<and> rc' (getGroupMemberNumKey y) = Some en \<and> dec int64Codec (val en) = Some n
           \<and> m y = Some \<lparr>Hash = h, MemberNum = ucast n\<rparr>"
    using here inn by simp
  show ?case using le d' out' inn' by blast
qed

lemma hashMapLoop_Inl:
  "hashMapLoop g rc res ids = (Inl err, rc') \<Longrightarrow>
     \<exists>x \<in> set ids. GetGroupMembersHash g rc' x = (Inl err, rc')
                   \<or> GetGroupMemberNum g rc' x = (Inl err, rc')"
proof (induction ids arbitrary: rc res)
  case Nil
  then show ?case by simp
next
  case (Cons x xs)
  obtain r1 rc1 where h: "GetGroupMembersHash g rc x = (r1, rc1)"
    by (cases "GetGroupMembersHash g rc x")
  show ?case
  proof (cases r1)
    case (Inl e)
    with Cons.prems h have "e = err" "rc' = rc1" by simp_all
    moreover have "rc1 = rc" using h Inl by (simp add: hash_Inl)
    ultimately show ?thesis using h Inl by simp
  next
    case (Inr hv)
    obtain r2 rc2 where n: "GetGroupMemberNum g rc1 x = (r2, rc2)"
      by (cases "GetGroupMemberNum g rc1 x")
    show ?thesis
    proof (cases r2)
      case (Inl e)
      with Cons.prems h Inr n have "e = err" "rc' = rc2" by simp_all
      moreover have "rc2 = rc1" using n Inl by (simp add: num_Inl)
      ultimately show ?thesis using n Inl by simp
    next
      case (Inr nv)
      with Cons.prems h \<open>r1 = Inr hv\<close> n
      have "hashMapLoop g rc2 (res(x \<mapsto> \<lparr>Hash = hv, MemberNum = ucast nv\<rparr>)) xs = (Inl err, rc')"
        by simp
      from Cons.IH [OF this] show ?thesis by auto
    qed
  qed
qed

lemma hash_key_inj: "getGroupMembersHashKey x = getGroupMembersHashKey y \<longleftrightarrow> x = y"
  by (simp add: getGroupMembersHashKey_def)

lemma num_key_inj: "getGroupMemberNumKey x = getGroupMemberNumKey y \<longleftrightarrow> x = y"
  by (simp add: getGroupMemberNumKey_def)

lemma hash_key_not_num_key: "getGroupMembersHashKey x \<noteq> getGroupMemberNumKey y"
  by (simp add: getGroupMembersHashKey_def getGroupMemberNumKey_def groupMembersHashKey_def
      groupMemberNumKey_def)

lemma hash_after_hash:
  "x \<noteq> y \<Longrightarrow> fst (GetGroupMembersHash g (snd (GetGroupMembersHash g rc x)) y)
     = fst (GetGroupMembersHash g rc y)"
  unfolding GetGroupMembersHash_def
  by (rule getCache_fst_cong, rule getCache_other) (simp add: hash_key_inj)

lemma num_after_hash:
  "fst (GetGroupMemberNum g (snd (GetGroupMembersHash g rc x)) y) = fst (GetGroupMemberNum g rc y)"
  unfolding GetGroupMembersHash_def GetGroupMemberNum_def
  by (rule getCache_fst_cong, rule getCache_other) (simp add: hash_key_not_num_key [symmetric])

lemma hash_after_num:
  "fst (GetGroupMembersHash g (snd (GetGroupMemberNum g rc x)) y) = fst (GetGroupMembersHash g rc y)"
  unfolding GetGroupMembersHash_def GetGroupMemberNum_def
  by (rule getCache_fst_cong, rule getCache_other) (simp add: hash_key_not_num_key)

lemma num_after_num:
  "x \<noteq> y \<Longrightarrow> fst (GetGroupMemberNum g (snd (GetGroupMemberNum g rc x)) y)
     = fst (GetGroupMemberNum g rc y)"
  unfolding GetGroupMemberNum_def
  by (rule getCache_fst_cong, rule getCache_other) (simp add: num_key_inj)

lemma hashMapLoop_fail_fast:
  assumes "y \<in> set ids"
    and "(\<exists>e. fst (GetGroupMembersHash g rc y) = Inl e) \<or> (\<exists>e. fst (GetGroupMemberNum g rc y) = Inl e)"
  shows "\<exists>e. fst (hashMapLoop g rc res ids) = Inl e"
  using assms
proof (induction ids arbitrary: rc res)
  case Nil
  then show ?case by simp
next
  case (Cons x xs)
  obtain r1 rc1 where h: "GetGroupMembersHash g rc x = (r1, rc1)"
    by (cases "GetGroupMembersHash g rc x")
  show ?case
  proof (cases r1)
    case (Inl e)
    with h show ?thesis by simp
  next
    case (Inr hv)
    note r1 = Inr
    obtain r2 rc2 where n: "GetGroupMemberNum g rc1 x = (r2, rc2)"
      by (cases "GetGroupMemberNum g rc1 x")
    show ?thesis
    proof (cases r2)
      case (Inl e)
      with h r1 n show ?thesis by simp
    next
      case (Inr nv)
      have step: "hashMapLoop g rc res (x # xs)
          = hashMapLoop g rc2 (res(x \<mapsto> \<lparr>Hash = hv, MemberNum = ucast nv\<rparr>)) xs"
        using h r1 n Inr by simp
      have "x \<noteq> y"
      proof
        assume xy: "x = y"
        from Cons.prems(2) show False
        proof
          assume "\<exists>e. fst (GetGroupMembersHash g rc y) = Inl e"
          with h r1 xy show False by simp
        next
          assume "\<exists>e. fst (GetGroupMemberNum g rc y) = Inl e"
          then obtain e where "fst (GetGroupMemberNum g rc y) = Inl e" by blast
          then show False using num_after_hash [of g rc x y] h n Inr xy by simp
        qed
      qed
      then have y: "y \<in> set xs" using Cons.prems(1) by simp
      have f1: "(\<exists>e. fst (GetGroupMembersHash g rc1 y) = Inl e)
              \<or> (\<exists>e. fst (GetGroupMemberNum g rc1 y) = Inl e)"
        using Cons.prems(2) hash_after_hash [OF \<open>x \<noteq> y\<close>, of g rc] num_after_hash [of g rc x y] h
        by simp
      have f2: "(\<exists>e. fst (GetGroupMembersHash g rc2 y) = Inl e)
              \<or> (\<exists>e. fst (GetGroupMemberNum g rc2 y) = Inl e)"
        using f1 num_after_num [OF \<open>x \<noteq> y\<close>, of g rc1] hash_after_num [of g rc1 x y] n
        by simp
      from Cons.IH [OF y f2] show ?thesis
        unfolding step .
    qed
  qed
qed

text \<open>\<^verbatim>\<open>uint32(num)\<close> is the count itself for every count below \<open>2\<^sup>3\<^sup>2\<close>.\<close>

lemma uint32_of_count: "uint n < 2 ^ 32 \<Longrightarrow> uint (ucast (n :: 64 word) :: 32 word) = uint n"
  by (simp add: unsigned_ucast_eq take_bit_int_eq_self)

text \<open>
  Claim C5. For every list of group IDs: when \<^verbatim>\<open>GetGroupMemberHashMap\<close> returns a
  map, its keys are the given group IDs and each group ID holds the pair of the hash
  that \<^verbatim>\<open>GetGroupMembersHash\<close> returns for it and the count that \<^verbatim>\<open>GetGroupMemberNum\<close>
  returns for it (converted by \<^verbatim>\<open>uint32\<close>); when it returns an error, no map is
  returned and the error is that of the hash or count lookup of one of the group IDs;
  and if the hash or the count lookup of any single group ID of the list fails, the
  whole call returns an error.
\<close>

theorem hash_map_holds_pairs_or_fails:
  "(\<forall>m rc'. GetGroupMemberHashMap g rc groupIDs = (Inr m, rc') \<longrightarrow>
       dom m = set groupIDs
       \<and> (\<forall>groupID \<in> set groupIDs. \<exists>h n.
            GetGroupMembersHash g rc' groupID = (Inr h, rc')
            \<and> GetGroupMemberNum g rc' groupID = (Inr n, rc')
            \<and> m groupID = Some \<lparr>Hash = h, MemberNum = ucast n\<rparr>))
   \<and> (\<forall>err rc'. GetGroupMemberHashMap g rc groupIDs = (Inl err, rc') \<longrightarrow>
        (\<exists>groupID \<in> set groupIDs. GetGroupMembersHash g rc' groupID = (Inl err, rc')
                                  \<or> GetGroupMemberNum g rc' groupID = (Inl err, rc')))
   \<and> ((\<exists>groupID \<in> set groupIDs. (\<exists>e. fst (GetGroupMembersHash g rc groupID) = Inl e)
                                  \<or> (\<exists>e. fst (GetGroupMemberNum g rc groupID) = Inl e))
        \<longrightarrow> (\<exists>e. fst (GetGroupMemberHashMap g rc groupIDs) = Inl e))"
proof (intro conjI allI impI)
  fix m rc'
  assume ok: "GetGroupMemberHashMap g rc groupIDs = (Inr m, rc')"
  then have l: "hashMapLoop g rc Map.empty groupIDs = (Inr m, rc')"
    by (simp add: GetGroupMemberHashMap_def)
  from hashMapLoop_Inr [OF l] show "dom m = set groupIDs" by simp
  show "\<forall>groupID \<in> set groupIDs. \<exists>h n.
            GetGroupMembersHash g rc' groupID = (Inr h, rc')
            \<and> GetGroupMemberNum g rc' groupID = (Inr n, rc')
            \<and> m groupID = Some \<lparr>Hash = h, MemberNum = ucast n\<rparr>"
  proof
    fix groupID assume "groupID \<in> set groupIDs"
    with hashMapLoop_Inr [OF l] obtain h n eh en where
      "rc' (getGroupMembersHashKey groupID) = Some eh" "dec uint64Codec (val eh) = Some h"
      "rc' (getGroupMemberNumKey groupID) = Some en" "dec int64Codec (val en) = Some n"
      "m groupID = Some \<lparr>Hash = h, MemberNum = ucast n\<rparr>"
      by blast
    then show "\<exists>h n. GetGroupMembersHash g rc' groupID = (Inr h, rc')
            \<and> GetGroupMemberNum g rc' groupID = (Inr n, rc')
            \<and> m groupID = Some \<lparr>Hash = h, MemberNum = ucast n\<rparr>"
      using hash_hit [of rc' groupID eh h g] num_hit [of rc' groupID en n g] by blast
  qed
next
  fix err rc'
  assume "GetGroupMemberHashMap g rc groupIDs = (Inl err, rc')"
  then have "hashMapLoop g rc Map.empty groupIDs = (Inl err, rc')"
    by (simp add: GetGroupMemberHashMap_def)
  then show "\<exists>groupID \<in> set groupIDs. GetGroupMembersHash g rc' groupID = (Inl err, rc')
                                  \<or> GetGroupMemberNum g rc' groupID = (Inl err, rc')"
    by (rule hashMapLoop_Inl)
next
  assume "\<exists>groupID \<in> set groupIDs. (\<exists>e. fst (GetGroupMembersHash g rc groupID) = Inl e)
                                  \<or> (\<exists>e. fst (GetGroupMemberNum g rc groupID) = Inl e)"
  then obtain y where "y \<in> set groupIDs"
    "(\<exists>e. fst (GetGroupMembersHash g rc y) = Inl e) \<or> (\<exists>e. fst (GetGroupMemberNum g rc y) = Inl e)"
    by blast
  then show "\<exists>e. fst (GetGroupMemberHashMap g rc groupIDs) = Inl e"
    unfolding GetGroupMemberHashMap_def by (rule hashMapLoop_fail_fast)
qed

theorem hash_map_holds_pairs_or_fails_witness:
  "fst (GetGroupMemberHashMap exCache Map.empty [''g1''])
     = Inr [''g1'' \<mapsto> \<lparr>Hash = 7, MemberNum = 10\<rparr>]
   \<and> fst (GetGroupMembersHash exCache (snd (GetGroupMemberHashMap exCache Map.empty [''g1''])) ''g1'')
       = Inr 7
   \<and> fst (GetGroupMemberNum exCache (snd (GetGroupMemberHashMap exCache Map.empty [''g1''])) ''g1'')
       = Inr 10
   \<and> fst (GetGroupMembersHash (exCache\<lparr>hashCode := None\<rparr>) Map.empty ''g2'') = Inl PanicNilFunc
   \<and> (\<exists>e. fst (GetGroupMemberHashMap (exCache\<lparr>hashCode := None\<rparr>) Map.empty [''g1'', ''g2''])
             = Inl e)"
proof -
  obtain m rc' where r: "GetGroupMemberHashMap exCache Map.empty [''g1''] = (m, rc')"
    by (cases "GetGroupMemberHashMap exCache Map.empty [''g1'']")
  have m: "m = Inr [''g1'' \<mapsto> \<lparr>Hash = 7, MemberNum = 10\<rparr>]"
    using r
    by (simp add: GetGroupMemberHashMap_def GetGroupMembersHash_def GetGroupMemberNum_def
        getCache_def exCache_simps exHashCode_def exMemberDB_def hash_key_not_num_key [symmetric]
        uint64Codec_def int64Codec_def)
  note t = hash_map_holds_pairs_or_fails [of exCache Map.empty "[''g1'']"]
  from t r m obtain h n where
    hn: "GetGroupMembersHash exCache rc' ''g1'' = (Inr h, rc')"
      "GetGroupMemberNum exCache rc' ''g1'' = (Inr n, rc')"
      "[''g1'' \<mapsto> \<lparr>Hash = 7, MemberNum = 10\<rparr>] ''g1'' = Some \<lparr>Hash = h, MemberNum = ucast n\<rparr>"
    by auto
  have p: "fst (GetGroupMembersHash (exCache\<lparr>hashCode := None\<rparr>) Map.empty ''g2'') = Inl PanicNilFunc"
    by (simp add: nil_hashCode_panics)
  note t' = hash_map_holds_pairs_or_fails [of "exCache\<lparr>hashCode := None\<rparr>" Map.empty "[''g1'', ''g2'']"]
  have f: "\<exists>e. fst (GetGroupMemberHashMap (exCache\<lparr>hashCode := None\<rparr>) Map.empty [''g1'', ''g2''])
             = Inl e"
    using t' p by auto
  have n10: "fst (GetGroupMemberNum exCache rc' ''g1'') = Inr 10"
  proof -
    have "rc' = snd (GetGroupMemberHashMap exCache Map.empty [''g1''])" using r by simp
    then show ?thesis
      by (simp add: GetGroupMemberHashMap_def GetGroupMembersHash_def GetGroupMemberNum_def
        getCache_def exCache_simps exHashCode_def exMemberDB_def hash_key_not_num_key [symmetric]
        uint64Codec_def int64Codec_def)
  qed
  show ?thesis
    using r m hn p f n10 by simp
qed

subsection \<open>What a read stores\<close>

lemma getCache_miss_stores:
  "rc key = None \<Longrightarrow> fn () = Inr v
     \<Longrightarrow> getCache c rc key t fn = (Inr v, rc(key \<mapsto> \<lparr>val = enc c v, ttl = t\<rparr>))"
  by (simp add: getCache_def)

lemma getCache_mono: "rc \<subseteq>\<^sub>m snd (getCache c rc key t fn)"
  by (auto simp: getCache_def map_le_def split: option.splits sum.splits)

lemma getCache_accepted_again:
  assumes "\<And>x. dec c (enc c x) = Some x"
    and "valueOrNotFound (fst (getCache c rc key t fn))"
  shows "valueOrNotFound (fst (getCache c (snd (getCache c rc key t fn)) key t fn))"
  using assms
  by (auto simp: getCache_def valueOrNotFound_def split: option.splits sum.splits)

lemma getCache_Inr_again:
  assumes "\<And>x. dec c (enc c x) = Some x"
    and "fst (getCache c rc key t fn) = Inr v"
  shows "fst (getCache c (snd (getCache c rc key t fn)) key t fn) = Inr v"
  using assms
  by (auto simp: getCache_def split: option.splits sum.splits)

lemma batchGetCache2_mono: "rc \<subseteq>\<^sub>m snd (batchGetCache2 c rc t ks keyFn fns)"
proof (induction ks arbitrary: rc)
  case Nil
  show ?case by simp
next
  case (Cons k ks)
  obtain r rc1 where g: "getCache c rc (keyFn k) t (\<lambda>_. fns k) = (r, rc1)"
    by (cases "getCache c rc (keyFn k) t (\<lambda>_. fns k)")
  have m1: "rc \<subseteq>\<^sub>m rc1"
    using getCache_mono [of rc c "keyFn k" t "\<lambda>_. fns k"] g by simp
  have m2: "rc \<subseteq>\<^sub>m snd (batchGetCache2 c rc1 t ks keyFn fns)"
    by (rule map_le_trans [OF m1 Cons.IH])
  show ?case
    using m1 m2 by (auto simp: g split: sum.splits prod.splits)
qed

lemma batchGetCache2_Cons_accepted:
  assumes "getCache c rc (keyFn k) t (\<lambda>_. fns k) = (r, rc1)" and "valueOrNotFound r"
  shows "snd (batchGetCache2 c rc t (k # ks) keyFn fns) = snd (batchGetCache2 c rc1 t ks keyFn fns)"
    and "(\<exists>vs. fst (batchGetCache2 c rc1 t ks keyFn fns) = Inr vs)
           \<Longrightarrow> (\<exists>vs. fst (batchGetCache2 c rc t (k # ks) keyFn fns) = Inr vs)"
  using assms
  by (auto simp: valueOrNotFound_def split: sum.splits prod.splits)

lemma batchGetCache2_stores:
  assumes rt: "\<And>x. dec c (enc c x) = Some x"
    and inj: "\<And>x y. keyFn x = keyFn y \<Longrightarrow> x = y"
    and ok: "\<forall>k \<in> set ks. valueOrNotFound (fst (getCache c rc (keyFn k) t (\<lambda>_. fns k)))"
  shows "(\<exists>vs. fst (batchGetCache2 c rc t ks keyFn fns) = Inr vs)
       \<and> (\<forall>k \<in> set ks. \<forall>v. rc (keyFn k) = None \<longrightarrow> fns k = Inr v \<longrightarrow>
              snd (batchGetCache2 c rc t ks keyFn fns) (keyFn k)
                = Some \<lparr>val = enc c v, ttl = t\<rparr>)"
  using ok
proof (induction ks arbitrary: rc)
  case Nil
  show ?case by simp
next
  case (Cons k ks)
  obtain r rc1 where g: "getCache c rc (keyFn k) t (\<lambda>_. fns k) = (r, rc1)"
    by (cases "getCache c rc (keyFn k) t (\<lambda>_. fns k)")
  have r: "valueOrNotFound r"
    using Cons.prems g by simp
  have rc1: "rc1 = snd (getCache c rc (keyFn k) t (\<lambda>_. fns k))"
    using g by simp
  have ok1: "\<forall>k' \<in> set ks. valueOrNotFound (fst (getCache c rc1 (keyFn k') t (\<lambda>_. fns k')))"
  proof
    fix k' assume k': "k' \<in> set ks"
    show "valueOrNotFound (fst (getCache c rc1 (keyFn k') t (\<lambda>_. fns k')))"
    proof (cases "keyFn k' = keyFn k")
      case True
      then have "k' = k" by (rule inj)
      then show ?thesis
        unfolding rc1 using getCache_accepted_again [OF rt, of rc "keyFn k" t "\<lambda>_. fns k"] r g
        by simp
    next
      case False
      then have "rc1 (keyFn k') = rc (keyFn k')"
        unfolding rc1 by (rule getCache_other)
      then have "fst (getCache c rc1 (keyFn k') t (\<lambda>_. fns k'))
                   = fst (getCache c rc (keyFn k') t (\<lambda>_. fns k'))"
        by (rule getCache_fst_cong)
      then show ?thesis using Cons.prems k' by simp
    qed
  qed
  note ih = Cons.IH [OF ok1]
  let ?fin = "snd (batchGetCache2 c rc t (k # ks) keyFn fns)"
  have fin: "?fin = snd (batchGetCache2 c rc1 t ks keyFn fns)"
    by (rule batchGetCache2_Cons_accepted(1) [where keyFn=keyFn and fns=fns and k=k, OF g r])
  have succ: "\<exists>vs. fst (batchGetCache2 c rc t (k # ks) keyFn fns) = Inr vs"
    using batchGetCache2_Cons_accepted(2) [where keyFn=keyFn and fns=fns and k=k, OF g r] ih by blast
  have m: "rc1 \<subseteq>\<^sub>m ?fin"
    unfolding fin by (rule batchGetCache2_mono)
  have st: "\<forall>k' \<in> set (k # ks). \<forall>v. rc (keyFn k') = None \<longrightarrow> fns k' = Inr v \<longrightarrow>
              ?fin (keyFn k') = Some \<lparr>val = enc c v, ttl = t\<rparr>"
  proof (intro ballI allI impI)
    fix k' v
    assume k': "k' \<in> set (k # ks)" and miss: "rc (keyFn k') = None" and ld: "fns k' = Inr v"
    show "?fin (keyFn k') = Some \<lparr>val = enc c v, ttl = t\<rparr>"
    proof (cases "keyFn k' = keyFn k")
      case True
      then have e: "k' = k" by (rule inj)
      have "getCache c rc (keyFn k) t (\<lambda>_. fns k)
              = (Inr v, rc(keyFn k \<mapsto> \<lparr>val = enc c v, ttl = t\<rparr>))"
        using miss ld e by (simp add: getCache_miss_stores)
      with g have "rc1 (keyFn k) = Some \<lparr>val = enc c v, ttl = t\<rparr>" by auto
      with m show ?thesis unfolding e by (rule map_le_Some)
    next
      case False
      then have "k' \<noteq> k" by auto
      with k' have in_ks: "k' \<in> set ks" by simp
      have "rc1 (keyFn k') = rc (keyFn k')"
        unfolding rc1 using False by (rule getCache_other)
      with miss have "rc1 (keyFn k') = None" by simp
      with ih in_ks ld show ?thesis unfolding fin by blast
    qed
  qed
  show ?case using succ st by blast
qed

lemma codec_roundtrips:
  "dec groupCodec (enc groupCodec gv) = Some gv"
  "dec memberCodec (enc memberCodec mv) = Some mv"
  "dec stringsCodec (enc stringsCodec ss) = Some ss"
  "dec uint64Codec (enc uint64Codec h) = Some h"
  "dec int64Codec (enc int64Codec n) = Some n"
  by (simp_all add: groupCodec_def memberCodec_def stringsCodec_def uint64Codec_def int64Codec_def)

lemma codec_encs:
  "enc groupCodec = GroupVal" "enc memberCodec = MemberVal" "enc stringsCodec = StringsVal"
  "enc uint64Codec = Uint64Val" "enc int64Codec = Int64Val"
  by (simp_all add: groupCodec_def memberCodec_def stringsCodec_def uint64Codec_def int64Codec_def)

lemma group_key_inj: "getGroupInfoKey x = getGroupInfoKey y \<Longrightarrow> x = y"
  by (simp add: getGroupInfoKey_def)

lemma member_key_inj: "getGroupMemberInfoKey groupID x = getGroupMemberInfoKey groupID y \<Longrightarrow> x = y"
  by (simp add: getGroupMemberInfoKey_def)

lemma ids_key_inj: "getGroupMemberIDsKey x = getGroupMemberIDsKey y \<longleftrightarrow> x = y"
  by (simp add: getGroupMemberIDsKey_def)

lemma GetGroupsInfo_stores:
  assumes "\<forall>x \<in> set groupIDs. valueOrNotFound (fst (GetGroupInfo g rc x))"
  shows "(\<exists>gs. fst (GetGroupsInfo g rc groupIDs) = Inr gs)
       \<and> (\<forall>x \<in> set groupIDs. \<forall>gv. rc (getGroupInfoKey x) = None \<longrightarrow>
              GroupModelInterface.Take (groupDB g) x = Inr gv \<longrightarrow>
              snd (GetGroupsInfo g rc groupIDs) (getGroupInfoKey x)
                = Some \<lparr>val = GroupVal gv, ttl = expireTime g\<rparr>)"
  using batchGetCache2_stores [where c = groupCodec and keyFn = getGroupInfoKey
      and fns = "\<lambda>groupID. GroupModelInterface.Take (groupDB g) groupID"
      and rc = rc and ks = groupIDs and t = "expireTime g",
      OF codec_roundtrips(1) group_key_inj] assms
  unfolding GetGroupsInfo_def GetGroupInfo_def codec_encs by simp

lemma GetGroupMembersInfo_stores:
  assumes "\<forall>u \<in> set userIDs. valueOrNotFound (fst (GetGroupMemberInfo g rc groupID u))"
  shows "(\<exists>ms. fst (GetGroupMembersInfo g rc groupID userIDs) = Inr ms)
       \<and> (\<forall>u \<in> set userIDs. \<forall>mv. rc (getGroupMemberInfoKey groupID u) = None \<longrightarrow>
              GroupMemberModelInterface.Take (groupMemberDB g) groupID u = Inr mv \<longrightarrow>
              snd (GetGroupMembersInfo g rc groupID userIDs) (getGroupMemberInfoKey groupID u)
                = Some \<lparr>val = MemberVal mv, ttl = expireTime g\<rparr>)"
  using batchGetCache2_stores [where c = memberCodec and keyFn = "getGroupMemberInfoKey groupID"
      and fns = "\<lambda>userID. GroupMemberModelInterface.Take (groupMemberDB g) groupID userID"
      and rc = rc and ks = userIDs and t = "expireTime g",
      OF codec_roundtrips(2) member_key_inj] assms
  unfolding GetGroupMembersInfo_def GetGroupMemberInfo_def codec_encs by simp

text \<open>The member records of a list, loaded after the member-ID lookup of the group.\<close>

lemma members_after_ids:
  assumes ids: "GetGroupMemberIDs g rc groupID = (r, rc1)"
    and ok: "\<forall>u \<in> set us. valueOrNotFound (fst (GetGroupMemberInfo g rc groupID u))"
  shows "(\<exists>ms. fst (GetGroupMembersInfo g rc1 groupID us) = Inr ms)
       \<and> (\<forall>u \<in> set us. \<forall>mv. rc (getGroupMemberInfoKey groupID u) = None \<longrightarrow>
              GroupMemberModelInterface.Take (groupMemberDB g) groupID u = Inr mv \<longrightarrow>
              snd (GetGroupMembersInfo g rc1 groupID us) (getGroupMemberInfoKey groupID u)
                = Some \<lparr>val = MemberVal mv, ttl = expireTime g\<rparr>)"
proof -
  have same: "rc1 (getGroupMemberInfoKey groupID u) = rc (getGroupMemberInfoKey groupID u)" for u
  proof -
    have "rc1 = snd (GetGroupMemberIDs g rc groupID)" using ids by simp
    then show ?thesis
      unfolding GetGroupMemberIDs_def
      by (simp add: getCache_other memberIDs_key_not_memberInfo_key [symmetric])
  qed
  have "fst (GetGroupMemberInfo g rc1 groupID u) = fst (GetGroupMemberInfo g rc groupID u)" for u
    unfolding GetGroupMemberInfo_def by (rule getCache_fst_cong) (rule same)
  with ok have ok1: "\<forall>u \<in> set us. valueOrNotFound (fst (GetGroupMemberInfo g rc1 groupID u))"
    by simp
  show ?thesis
    using GetGroupMembersInfo_stores [OF ok1] by (simp add: same)
qed

lemma GetGroupMemberIDs_miss:
  "rc (getGroupMemberIDsKey groupID) = None \<Longrightarrow> FindMemberUserID (groupMemberDB g) groupID = Inr ids
     \<Longrightarrow> GetGroupMemberIDs g rc groupID
          = (Inr ids, rc(getGroupMemberIDsKey groupID
                           \<mapsto> \<lparr>val = StringsVal ids, ttl = expireTime g\<rparr>))"
  unfolding GetGroupMemberIDs_def by (simp add: getCache_miss_stores codec_encs)

lemma GetGroupMembersInfo_mono: "rc \<subseteq>\<^sub>m snd (GetGroupMembersInfo g rc groupID us)"
  unfolding GetGroupMembersInfo_def by (rule batchGetCache2_mono)

lemma GetAllGroupMembersInfo_eq:
  "GetGroupMemberIDs g rc groupID = (Inr ids, rc1)
     \<Longrightarrow> GetAllGroupMembersInfo g rc groupID = GetGroupMembersInfo g rc1 groupID ids"
  by (simp add: GetAllGroupMembersInfo_def)

lemma GetGroupMembersPage_snd:
  "GetGroupMemberIDs g rc groupID = (Inr ids, rc1)
     \<Longrightarrow> snd (GetGroupMembersPage g rc groupID us s p)
          = snd (GetGroupMembersInfo g rc1 groupID (Paginate (pageCandidates us ids) (sint s) (sint s)))"
  by (simp add: GetGroupMembersPage_def Let_def split: prod.splits sum.splits)

lemma GetGroupMembersPage_err:
  "GetGroupMemberIDs g rc groupID = (Inr ids, rc1)
     \<Longrightarrow> fst (GetGroupMembersInfo g rc1 groupID
                (Paginate (pageCandidates us ids) (sint s) (sint s))) = Inr ms
     \<Longrightarrow> fst (GetGroupMembersPage g rc groupID us s p)
          = (of_nat (length (pageCandidates us ids)), ms, None)"
  by (auto simp: GetGroupMembersPage_def Let_def split: prod.splits sum.splits)

lemma GetGroupMembersHash_miss:
  "rc (getGroupMembersHashKey x) = None \<Longrightarrow> hashCode g = Some f \<Longrightarrow> f x = Inr h
     \<Longrightarrow> GetGroupMembersHash g rc x
          = (Inr h, rc(getGroupMembersHashKey x \<mapsto> \<lparr>val = Uint64Val h, ttl = expireTime g\<rparr>))"
  unfolding GetGroupMembersHash_def by (simp add: getCache_miss_stores codec_encs)

lemma GetGroupMemberNum_miss:
  "rc (getGroupMemberNumKey x) = None \<Longrightarrow> TakeGroupMemberNum (groupMemberDB g) x = Inr n
     \<Longrightarrow> GetGroupMemberNum g rc x
          = (Inr n, rc(getGroupMemberNumKey x \<mapsto> \<lparr>val = Int64Val n, ttl = expireTime g\<rparr>))"
  unfolding GetGroupMemberNum_def by (simp add: getCache_miss_stores codec_encs)

lemma lookup_monos:
  "rc \<subseteq>\<^sub>m snd (GetGroupMembersHash g rc x)"
  "rc \<subseteq>\<^sub>m snd (GetGroupMemberNum g rc x)"
  "rc \<subseteq>\<^sub>m snd (GetGroupMemberIDs g rc x)"
  unfolding GetGroupMembersHash_def GetGroupMemberNum_def GetGroupMemberIDs_def
  by (rule getCache_mono)+

lemma lookup_others:
  "k \<noteq> getGroupMembersHashKey x \<Longrightarrow> snd (GetGroupMembersHash g rc x) k = rc k"
  "k \<noteq> getGroupMemberNumKey x \<Longrightarrow> snd (GetGroupMemberNum g rc x) k = rc k"
  "k \<noteq> getGroupMemberIDsKey x \<Longrightarrow> snd (GetGroupMemberIDs g rc x) k = rc k"
  unfolding GetGroupMembersHash_def GetGroupMemberNum_def GetGroupMemberIDs_def
  by (rule getCache_other, assumption)+

lemma lookup_Inr_again:
  "fst (GetGroupMembersHash g rc x) = Inr h
     \<Longrightarrow> fst (GetGroupMembersHash g (snd (GetGroupMembersHash g rc x)) x) = Inr h"
  "fst (GetGroupMemberNum g rc x) = Inr n
     \<Longrightarrow> fst (GetGroupMemberNum g (snd (GetGroupMemberNum g rc x)) x) = Inr n"
  "fst (GetGroupMemberIDs g rc x) = Inr ids
     \<Longrightarrow> fst (GetGroupMemberIDs g (snd (GetGroupMemberIDs g rc x)) x) = Inr ids"
  unfolding GetGroupMembersHash_def GetGroupMemberNum_def GetGroupMemberIDs_def
  by (rule getCache_Inr_again, rule codec_roundtrips, assumption)+

lemma ids_after_ids:
  "x \<noteq> y \<Longrightarrow> fst (GetGroupMemberIDs g (snd (GetGroupMemberIDs g rc x)) y)
     = fst (GetGroupMemberIDs g rc y)"
  unfolding GetGroupMemberIDs_def
  by (rule getCache_fst_cong, rule getCache_other) (simp add: ids_key_inj)

lemma hashMapLoop_mono: "rc \<subseteq>\<^sub>m snd (hashMapLoop g rc res ids)"
proof (induction ids arbitrary: rc res)
  case Nil
  show ?case by simp
next
  case (Cons x ids)
  obtain r1 rc1 where h: "GetGroupMembersHash g rc x = (r1, rc1)"
    by (cases "GetGroupMembersHash g rc x")
  obtain r2 rc2 where n: "GetGroupMemberNum g rc1 x = (r2, rc2)"
    by (cases "GetGroupMemberNum g rc1 x")
  have m1: "rc \<subseteq>\<^sub>m rc1" using lookup_monos(1) [of rc g x] h by simp
  have m2: "rc1 \<subseteq>\<^sub>m rc2" using lookup_monos(2) [of rc1 g x] n by simp
  have m12: "rc \<subseteq>\<^sub>m rc2" by (rule map_le_trans [OF m1 m2])
  have m3: "\<And>res'. rc \<subseteq>\<^sub>m snd (hashMapLoop g rc2 res' ids)"
    by (rule map_le_trans [OF m12 Cons.IH])
  show ?case
    using m1 m12 m3 by (auto simp: h n split: sum.splits)
qed

lemma memberIDsLoop_mono: "rc \<subseteq>\<^sub>m snd (memberIDsLoop g rc m ids)"
proof (induction ids arbitrary: rc m)
  case Nil
  show ?case by simp
next
  case (Cons x ids)
  obtain r1 rc1 where h: "GetGroupMemberIDs g rc x = (r1, rc1)"
    by (cases "GetGroupMemberIDs g rc x")
  have m1: "rc \<subseteq>\<^sub>m rc1" using lookup_monos(3) [of rc g x] h by simp
  have m3: "\<And>m'. rc \<subseteq>\<^sub>m snd (memberIDsLoop g rc1 m' ids)"
    by (rule map_le_trans [OF m1 Cons.IH])
  show ?case
    using m1 m3 by (auto simp: h split: sum.splits)
qed

lemma hashMapLoop_stores:
  assumes "\<forall>x \<in> set ids. (\<exists>h. fst (GetGroupMembersHash g rc x) = Inr h)
                          \<and> (\<exists>n. fst (GetGroupMemberNum g rc x) = Inr n)"
  shows "(\<exists>m. fst (hashMapLoop g rc res ids) = Inr m)
       \<and> (\<forall>x \<in> set ids. \<forall>f h. rc (getGroupMembersHashKey x) = None \<longrightarrow>
              hashCode g = Some f \<longrightarrow> f x = Inr h \<longrightarrow>
              snd (hashMapLoop g rc res ids) (getGroupMembersHashKey x)
                = Some \<lparr>val = Uint64Val h, ttl = expireTime g\<rparr>)
       \<and> (\<forall>x \<in> set ids. \<forall>n. rc (getGroupMemberNumKey x) = None \<longrightarrow>
              TakeGroupMemberNum (groupMemberDB g) x = Inr n \<longrightarrow>
              snd (hashMapLoop g rc res ids) (getGroupMemberNumKey x)
                = Some \<lparr>val = Int64Val n, ttl = expireTime g\<rparr>)"
  using assms
proof (induction ids arbitrary: rc res)
  case Nil
  show ?case by simp
next
  case (Cons y ys)
  from Cons.prems obtain h0 n0 where
    h0: "fst (GetGroupMembersHash g rc y) = Inr h0" and
    n0: "fst (GetGroupMemberNum g rc y) = Inr n0"
    by auto
  define rc1 where "rc1 = snd (GetGroupMembersHash g rc y)"
  define rc2 where "rc2 = snd (GetGroupMemberNum g rc1 y)"
  have h: "GetGroupMembersHash g rc y = (Inr h0, rc1)"
    using h0 by (simp add: rc1_def prod_eq_iff)
  have "fst (GetGroupMemberNum g rc1 y) = Inr n0"
    unfolding rc1_def using n0 by (simp add: num_after_hash)
  then have n: "GetGroupMemberNum g rc1 y = (Inr n0, rc2)"
    by (simp add: rc2_def prod_eq_iff)
  let ?res = "res(y \<mapsto> \<lparr>Hash = h0, MemberNum = ucast n0\<rparr>)"
  have step: "hashMapLoop g rc res (y # ys) = hashMapLoop g rc2 ?res ys"
    using h n by simp
  have ok2: "\<forall>x \<in> set ys. (\<exists>h. fst (GetGroupMembersHash g rc2 x) = Inr h)
                          \<and> (\<exists>n. fst (GetGroupMemberNum g rc2 x) = Inr n)"
  proof
    fix x assume x: "x \<in> set ys"
    from Cons.prems x obtain hx nx where
      hx: "fst (GetGroupMembersHash g rc x) = Inr hx" and
      nx: "fst (GetGroupMemberNum g rc x) = Inr nx"
      by auto
    have a: "\<exists>h. fst (GetGroupMembersHash g rc1 x) = Inr h"
    proof (cases "x = y")
      case True
      then show ?thesis unfolding rc1_def using lookup_Inr_again(1) [OF h0] by blast
    next
      case False
      then have "y \<noteq> x" by simp
      then show ?thesis unfolding rc1_def using hx by (simp add: hash_after_hash)
    qed
    have a2: "\<exists>h. fst (GetGroupMembersHash g rc2 x) = Inr h"
      unfolding rc2_def using a by (simp add: hash_after_num)
    have b1: "fst (GetGroupMemberNum g rc1 x) = Inr nx"
      unfolding rc1_def using nx by (simp add: num_after_hash)
    have b2: "\<exists>n. fst (GetGroupMemberNum g rc2 x) = Inr n"
    proof (cases "x = y")
      case True
      then show ?thesis unfolding rc2_def using lookup_Inr_again(2) [of g rc1 y] b1 by blast
    next
      case False
      then have "y \<noteq> x" by simp
      then show ?thesis unfolding rc2_def using b1 by (simp add: num_after_num)
    qed
    show "(\<exists>h. fst (GetGroupMembersHash g rc2 x) = Inr h)
        \<and> (\<exists>n. fst (GetGroupMemberNum g rc2 x) = Inr n)"
      using a2 b2 by blast
  qed
  note ih = Cons.IH [OF ok2, of ?res]
  let ?fin = "snd (hashMapLoop g rc res (y # ys))"
  have fin: "?fin = snd (hashMapLoop g rc2 ?res ys)" by (simp only: step)
  have m12: "rc1 \<subseteq>\<^sub>m rc2" unfolding rc2_def by (rule lookup_monos)
  have m2f: "rc2 \<subseteq>\<^sub>m ?fin" unfolding fin by (rule hashMapLoop_mono)
  have succ: "\<exists>m. fst (hashMapLoop g rc res (y # ys)) = Inr m"
    unfolding step using ih by blast
  have hs: "\<forall>x \<in> set (y # ys). \<forall>f h. rc (getGroupMembersHashKey x) = None \<longrightarrow>
              hashCode g = Some f \<longrightarrow> f x = Inr h \<longrightarrow>
              ?fin (getGroupMembersHashKey x) = Some \<lparr>val = Uint64Val h, ttl = expireTime g\<rparr>"
  proof (intro ballI allI impI)
    fix x f hv
    assume x: "x \<in> set (y # ys)" and miss: "rc (getGroupMembersHashKey x) = None"
      and f: "hashCode g = Some f" and ld: "f x = Inr hv"
    show "?fin (getGroupMembersHashKey x) = Some \<lparr>val = Uint64Val hv, ttl = expireTime g\<rparr>"
    proof (cases "x = y")
      case True
      have "rc1 (getGroupMembersHashKey y) = Some \<lparr>val = Uint64Val hv, ttl = expireTime g\<rparr>"
        unfolding rc1_def using GetGroupMembersHash_miss [of rc x g f hv] miss f ld True by simp
      then have "rc2 (getGroupMembersHashKey y) = Some \<lparr>val = Uint64Val hv, ttl = expireTime g\<rparr>"
        using m12 by (blast intro: map_le_Some)
      then show ?thesis unfolding True using m2f by (blast intro: map_le_Some)
    next
      case False
      with x have in_ys: "x \<in> set ys" by simp
      have "rc1 (getGroupMembersHashKey x) = None"
        unfolding rc1_def using miss False by (simp add: lookup_others hash_key_inj)
      then have "rc2 (getGroupMembersHashKey x) = None"
        unfolding rc2_def by (simp add: lookup_others hash_key_not_num_key)
      with ih in_ys f ld show ?thesis unfolding fin by blast
    qed
  qed
  have ns: "\<forall>x \<in> set (y # ys). \<forall>n. rc (getGroupMemberNumKey x) = None \<longrightarrow>
              TakeGroupMemberNum (groupMemberDB g) x = Inr n \<longrightarrow>
              ?fin (getGroupMemberNumKey x) = Some \<lparr>val = Int64Val n, ttl = expireTime g\<rparr>"
  proof (intro ballI allI impI)
    fix x nv
    assume x: "x \<in> set (y # ys)" and miss: "rc (getGroupMemberNumKey x) = None"
      and ld: "TakeGroupMemberNum (groupMemberDB g) x = Inr nv"
    have miss1: "rc1 (getGroupMemberNumKey x) = None"
      unfolding rc1_def using miss by (simp add: lookup_others hash_key_not_num_key [symmetric])
    show "?fin (getGroupMemberNumKey x) = Some \<lparr>val = Int64Val nv, ttl = expireTime g\<rparr>"
    proof (cases "x = y")
      case True
      have "rc2 (getGroupMemberNumKey y) = Some \<lparr>val = Int64Val nv, ttl = expireTime g\<rparr>"
        unfolding rc2_def using GetGroupMemberNum_miss [of rc1 y g nv] miss1 ld True by simp
      then show ?thesis unfolding True using m2f by (blast intro: map_le_Some)
    next
      case False
      with x have in_ys: "x \<in> set ys" by simp
      have "rc2 (getGroupMemberNumKey x) = None"
        unfolding rc2_def using miss1 False by (simp add: lookup_others num_key_inj)
      with ih in_ys ld show ?thesis unfolding fin by blast
    qed
  qed
  show ?case using succ hs ns by blast
qed

lemma memberIDsLoop_stores:
  assumes "\<forall>x \<in> set ids. \<exists>us. fst (GetGroupMemberIDs g rc x) = Inr us"
  shows "(\<exists>m'. fst (memberIDsLoop g rc m ids) = Inr m')
       \<and> (\<forall>x \<in> set ids. \<forall>us. rc (getGroupMemberIDsKey x) = None \<longrightarrow>
              FindMemberUserID (groupMemberDB g) x = Inr us \<longrightarrow>
              snd (memberIDsLoop g rc m ids) (getGroupMemberIDsKey x)
                = Some \<lparr>val = StringsVal us, ttl = expireTime g\<rparr>)"
  using assms
proof (induction ids arbitrary: rc m)
  case Nil
  show ?case by simp
next
  case (Cons y ys)
  from Cons.prems obtain u0 where u0: "fst (GetGroupMemberIDs g rc y) = Inr u0"
    by auto
  define rc1 where "rc1 = snd (GetGroupMemberIDs g rc y)"
  have h: "GetGroupMemberIDs g rc y = (Inr u0, rc1)"
    using u0 by (simp add: rc1_def prod_eq_iff)
  have step: "memberIDsLoop g rc m (y # ys) = memberIDsLoop g rc1 (m(y \<mapsto> u0)) ys"
    using h by simp
  have ok1: "\<forall>x \<in> set ys. \<exists>us. fst (GetGroupMemberIDs g rc1 x) = Inr us"
  proof
    fix x assume x: "x \<in> set ys"
    from Cons.prems x obtain ux where ux: "fst (GetGroupMemberIDs g rc x) = Inr ux" by auto
    show "\<exists>us. fst (GetGroupMemberIDs g rc1 x) = Inr us"
    proof (cases "x = y")
      case True
      then show ?thesis unfolding rc1_def using lookup_Inr_again(3) [OF u0] by blast
    next
      case False
      then have "y \<noteq> x" by simp
      then show ?thesis unfolding rc1_def using ux by (simp add: ids_after_ids)
    qed
  qed
  note ih = Cons.IH [OF ok1, of "m(y \<mapsto> u0)"]
  let ?fin = "snd (memberIDsLoop g rc m (y # ys))"
  have fin: "?fin = snd (memberIDsLoop g rc1 (m(y \<mapsto> u0)) ys)" by (simp only: step)
  have m1f: "rc1 \<subseteq>\<^sub>m ?fin" unfolding fin by (rule memberIDsLoop_mono)
  have succ: "\<exists>m'. fst (memberIDsLoop g rc m (y # ys)) = Inr m'"
    unfolding step using ih by blast
  have st: "\<forall>x \<in> set (y # ys). \<forall>us. rc (getGroupMemberIDsKey x) = None \<longrightarrow>
              FindMemberUserID (groupMemberDB g) x = Inr us \<longrightarrow>
              ?fin (getGroupMemberIDsKey x) = Some \<lparr>val = StringsVal us, ttl = expireTime g\<rparr>"
  proof (intro ballI allI impI)
    fix x us
    assume x: "x \<in> set (y # ys)" and miss: "rc (getGroupMemberIDsKey x) = None"
      and ld: "FindMemberUserID (groupMemberDB g) x = Inr us"
    show "?fin (getGroupMemberIDsKey x) = Some \<lparr>val = StringsVal us, ttl = expireTime g\<rparr>"
    proof (cases "x = y")
      case True
      have "rc1 (getGroupMemberIDsKey y) = Some \<lparr>val = StringsVal us, ttl = expireTime g\<rparr>"
        unfolding rc1_def using GetGroupMemberIDs_miss [of rc x g us] miss ld True by simp
      then show ?thesis unfolding True using m1f by (blast intro: map_le_Some)
    next
      case False
      with x have in_ys: "x \<in> set ys" by simp
      have "rc1 (getGroupMemberIDsKey x) = None"
        unfolding rc1_def using miss False by (simp add: lookup_others ids_key_inj)
      with ih in_ys ld show ?thesis unfolding fin by blast
    qed
  qed
  show ?case using succ st by blast
qed

lemma GetGroupMemberIDs_stored:
  "GetGroupMemberIDs g rc groupID = (Inr ids, rc1) \<Longrightarrow> rc (getGroupMemberIDsKey groupID) = None
     \<Longrightarrow> rc1 (getGroupMemberIDsKey groupID) = Some \<lparr>val = StringsVal ids, ttl = expireTime g\<rparr>"
  unfolding GetGroupMemberIDs_def
  by (auto simp: getCache_def codec_encs split: sum.splits)

text \<open>
  What the three methods that load member records after the member-ID lookup leave in
  the backend, for the list of user IDs they pass to \<^verbatim>\<open>GetGroupMembersInfo\<close>.
\<close>

lemma ids_then_members_stores:
  assumes ids: "GetGroupMemberIDs g rc groupID = (Inr ids, rc1)"
    and ok: "\<forall>u \<in> set us. valueOrNotFound (fst (GetGroupMemberInfo g rc groupID u))"
  shows "(\<exists>ms. fst (GetGroupMembersInfo g rc1 groupID us) = Inr ms)
       \<and> (\<forall>u \<in> set us. \<forall>mv. rc (getGroupMemberInfoKey groupID u) = None \<longrightarrow>
              GroupMemberModelInterface.Take (groupMemberDB g) groupID u = Inr mv \<longrightarrow>
              snd (GetGroupMembersInfo g rc1 groupID us) (getGroupMemberInfoKey groupID u)
                = Some \<lparr>val = MemberVal mv, ttl = expireTime g\<rparr>)
       \<and> (rc (getGroupMemberIDsKey groupID) = None \<longrightarrow>
              snd (GetGroupMembersInfo g rc1 groupID us) (getGroupMemberIDsKey groupID)
                = Some \<lparr>val = StringsVal ids, ttl = expireTime g\<rparr>)"
proof -
  note m = members_after_ids [OF ids ok]
  have "rc (getGroupMemberIDsKey groupID) = None \<longrightarrow>
          snd (GetGroupMembersInfo g rc1 groupID us) (getGroupMemberIDsKey groupID)
            = Some \<lparr>val = StringsVal ids, ttl = expireTime g\<rparr>"
  proof
    assume "rc (getGroupMemberIDsKey groupID) = None"
    with ids have "rc1 (getGroupMemberIDsKey groupID)
                     = Some \<lparr>val = StringsVal ids, ttl = expireTime g\<rparr>"
      by (rule GetGroupMemberIDs_stored)
    with GetGroupMembersInfo_mono [of rc1 g groupID us]
    show "snd (GetGroupMembersInfo g rc1 groupID us) (getGroupMemberIDsKey groupID)
            = Some \<lparr>val = StringsVal ids, ttl = expireTime g\<rparr>"
      by (rule map_le_Some)
  qed
  with m show ?thesis by blast
qed

text \<open>
  Claim C10. The constructor sets \<^verbatim>\<open>expireTime\<close> to 12 hours (43200000000000 ns), and
  \<^verbatim>\<open>NewCache\<close> copies it, so every live object \<open>g\<close> of a reachable state has it, and
  every entry of the backend \<open>rc\<close> of that state has a time-to-live of 12 hours. Every
  read method stores what it loads with that time-to-live, whatever the entity:
  \<^item> no read writes an entry with another time-to-live;
  \<^item> each of the six single-key reads (group info, member IDs, members hash, member
    info, joined groups, member count), on a miss with a successful loader, returns
    the loaded value and leaves its key holding that value with a time-to-live of 12
    hours;
  \<^item> each of the two batch reads, when no lookup of the batch fails with an error
    other than not-found, returns without error and leaves the key of every ID that
    missed with a successful loader holding the loaded value with 12 hours;
  \<^item> so do the two loops over group IDs (hash map, member IDs of several groups) for
    their hash, count and member-ID keys, and the three methods that load member
    records after the member-ID lookup (all members under both spellings, and the
    member page) for the member-ID key and the member keys of the IDs they load.
\<close>

theorem every_read_stores_with_twelve_hours:
  assumes "reachable w" and "a < nextObj w" and "g = objs w a" and "rc = backend w"
  shows "expireTime (objs (snd (NewGroupCacheRedis gDB gmDB grDB hc w'))
                      (fst (NewGroupCacheRedis gDB gmDB grDB hc w'))) = 43200000000000
    \<and> expireTime (objs w a) = 43200000000000
    \<and> writesWithTTL 43200000000000 (backend w) (callRead r (objs w a) (backend w))
    \<and> (\<forall>k e. backend w k = Some e \<longrightarrow> ttl e = 43200000000000)
    \<and> (rc (getGroupInfoKey groupID) = None \<longrightarrow>
          GroupModelInterface.Take (groupDB g) groupID = Inr gv \<longrightarrow>
          GetGroupInfo g rc groupID
            = (Inr gv, rc(getGroupInfoKey groupID
                            \<mapsto> \<lparr>val = GroupVal gv, ttl = 43200000000000\<rparr>)))
    \<and> (rc (getGroupMemberIDsKey groupID) = None \<longrightarrow>
          FindMemberUserID (groupMemberDB g) groupID = Inr ids \<longrightarrow>
          GetGroupMemberIDs g rc groupID
            = (Inr ids, rc(getGroupMemberIDsKey groupID
                             \<mapsto> \<lparr>val = StringsVal ids, ttl = 43200000000000\<rparr>)))
    \<and> (rc (getGroupMembersHashKey groupID) = None \<longrightarrow>
          hashCode g = Some f \<longrightarrow> f groupID = Inr h \<longrightarrow>
          GetGroupMembersHash g rc groupID
            = (Inr h, rc(getGroupMembersHashKey groupID
                           \<mapsto> \<lparr>val = Uint64Val h, ttl = 43200000000000\<rparr>)))
    \<and> (rc (getGroupMemberInfoKey groupID userID) = None \<longrightarrow>
          GroupMemberModelInterface.Take (groupMemberDB g) groupID userID = Inr mv \<longrightarrow>
          GetGroupMemberInfo g rc groupID userID
            = (Inr mv, rc(getGroupMemberInfoKey groupID userID
                            \<mapsto> \<lparr>val = MemberVal mv, ttl = 43200000000000\<rparr>)))
    \<and> (rc (getJoinedGroupsKey userID) = None \<longrightarrow>
          FindUserJoinedGroupID (groupMemberDB g) userID = Inr joined \<longrightarrow>
          GetJoinedGroupIDs g rc userID
            = (Inr joined, rc(getJoinedGroupsKey userID
                                \<mapsto> \<lparr>val = StringsVal joined, ttl = 43200000000000\<rparr>)))
    \<and> (rc (getGroupMemberNumKey groupID) = None \<longrightarrow>
          TakeGroupMemberNum (groupMemberDB g) groupID = Inr n \<longrightarrow>
          GetGroupMemberNum g rc groupID
            = (Inr n, rc(getGroupMemberNumKey groupID
                           \<mapsto> \<lparr>val = Int64Val n, ttl = 43200000000000\<rparr>)))
    \<and> ((\<forall>x \<in> set groupIDs. valueOrNotFound (fst (GetGroupInfo g rc x))) \<longrightarrow>
          (\<exists>gs. fst (GetGroupsInfo g rc groupIDs) = Inr gs)
          \<and> (\<forall>x \<in> set groupIDs. \<forall>v. rc (getGroupInfoKey x) = None \<longrightarrow>
                GroupModelInterface.Take (groupDB g) x = Inr v \<longrightarrow>
                snd (GetGroupsInfo g rc groupIDs) (getGroupInfoKey x)
                  = Some \<lparr>val = GroupVal v, ttl = 43200000000000\<rparr>))
    \<and> ((\<forall>u \<in> set userIDs. valueOrNotFound (fst (GetGroupMemberInfo g rc groupID u))) \<longrightarrow>
          (\<exists>ms. fst (GetGroupMembersInfo g rc groupID userIDs) = Inr ms)
          \<and> (\<forall>u \<in> set userIDs. \<forall>v. rc (getGroupMemberInfoKey groupID u) = None \<longrightarrow>
                GroupMemberModelInterface.Take (groupMemberDB g) groupID u = Inr v \<longrightarrow>
                snd (GetGroupMembersInfo g rc groupID userIDs) (getGroupMemberInfoKey groupID u)
                  = Some \<lparr>val = MemberVal v, ttl = 43200000000000\<rparr>))
    \<and> ((\<forall>x \<in> set groupIDs. (\<exists>v. fst (GetGroupMembersHash g rc x) = Inr v)
                              \<and> (\<exists>v. fst (GetGroupMemberNum g rc x) = Inr v)) \<longrightarrow>
          (\<exists>m. fst (GetGroupMemberHashMap g rc groupIDs) = Inr m)
          \<and> (\<forall>x \<in> set groupIDs. \<forall>f v. rc (getGroupMembersHashKey x) = None \<longrightarrow>
                hashCode g = Some f \<longrightarrow> f x = Inr v \<longrightarrow>
                snd (GetGroupMemberHashMap g rc groupIDs) (getGroupMembersHashKey x)
                  = Some \<lparr>val = Uint64Val v, ttl = 43200000000000\<rparr>)
          \<and> (\<forall>x \<in> set groupIDs. \<forall>v. rc (getGroupMemberNumKey x) = None \<longrightarrow>
                TakeGroupMemberNum (groupMemberDB g) x = Inr v \<longrightarrow>
                snd (GetGroupMemberHashMap g rc groupIDs) (getGroupMemberNumKey x)
                  = Some \<lparr>val = Int64Val v, ttl = 43200000000000\<rparr>))
    \<and> ((\<forall>x \<in> set groupIDs. \<exists>v. fst (GetGroupMemberIDs g rc x) = Inr v) \<longrightarrow>
          (\<exists>m. fst (GetGroupsMemberIDs g rc groupIDs) = Inr m)
          \<and> (\<forall>x \<in> set groupIDs. \<forall>v. rc (getGroupMemberIDsKey x) = None \<longrightarrow>
                FindMemberUserID (groupMemberDB g) x = Inr v \<longrightarrow>
                snd (GetGroupsMemberIDs g rc groupIDs) (getGroupMemberIDsKey x)
                  = Some \<lparr>val = StringsVal v, ttl = 43200000000000\<rparr>))
    \<and> (GetGroupMemberIDs g rc groupID = (Inr memberIDs, rcIDs) \<longrightarrow>
          (\<forall>u \<in> set memberIDs. valueOrNotFound (fst (GetGroupMemberInfo g rc groupID u))) \<longrightarrow>
          (\<exists>ms. fst (GetAllGroupMembersInfo g rc groupID) = Inr ms)
          \<and> (\<forall>u \<in> set memberIDs. \<forall>v. rc (getGroupMemberInfoKey groupID u) = None \<longrightarrow>
                GroupMemberModelInterface.Take (groupMemberDB g) groupID u = Inr v \<longrightarrow>
                snd (GetAllGroupMembersInfo g rc groupID) (getGroupMemberInfoKey groupID u)
                  = Some \<lparr>val = MemberVal v, ttl = 43200000000000\<rparr>)
          \<and> (rc (getGroupMemberIDsKey groupID) = None \<longrightarrow>
                snd (GetAllGroupMembersInfo g rc groupID) (getGroupMemberIDsKey groupID)
                  = Some \<lparr>val = StringsVal memberIDs, ttl = 43200000000000\<rparr>))
    \<and> (GetGroupMemberIDs g rc groupID = (Inr memberIDs, rcIDs) \<longrightarrow>
          (\<forall>u \<in> set memberIDs. valueOrNotFound (fst (GetGroupMemberInfo g rc groupID u))) \<longrightarrow>
          (\<exists>ms. fst (GetAllGroupMemberInfo g rc groupID) = Inr ms)
          \<and> (\<forall>u \<in> set memberIDs. \<forall>v. rc (getGroupMemberInfoKey groupID u) = None \<longrightarrow>
                GroupMemberModelInterface.Take (groupMemberDB g) groupID u = Inr v \<longrightarrow>
                snd (GetAllGroupMemberInfo g rc groupID) (getGroupMemberInfoKey groupID u)
                  = Some \<lparr>val = MemberVal v, ttl = 43200000000000\<rparr>)
          \<and> (rc (getGroupMemberIDsKey groupID) = None \<longrightarrow>
                snd (GetAllGroupMemberInfo g rc groupID) (getGroupMemberIDsKey groupID)
                  = Some \<lparr>val = StringsVal memberIDs, ttl = 43200000000000\<rparr>))
    \<and> (GetGroupMemberIDs g rc groupID = (Inr memberIDs, rcIDs) \<longrightarrow>
          (\<forall>u \<in> set (Paginate (pageCandidates candidates memberIDs)
                          (sint showNumber) (sint showNumber)).
              valueOrNotFound (fst (GetGroupMemberInfo g rc groupID u))) \<longrightarrow>
          snd (snd (fst (GetGroupMembersPage g rc groupID candidates showNumber pageNumber))) = None
          \<and> (\<forall>u \<in> set (Paginate (pageCandidates candidates memberIDs)
                            (sint showNumber) (sint showNumber)).
                \<forall>v. rc (getGroupMemberInfoKey groupID u) = None \<longrightarrow>
                GroupMemberModelInterface.Take (groupMemberDB g) groupID u = Inr v \<longrightarrow>
                snd (GetGroupMembersPage g rc groupID candidates showNumber pageNumber)
                    (getGroupMemberInfoKey groupID u)
                  = Some \<lparr>val = MemberVal v, ttl = 43200000000000\<rparr>)
          \<and> (rc (getGroupMemberIDsKey groupID) = None \<longrightarrow>
                snd (GetGroupMembersPage g rc groupID candidates showNumber pageNumber)
                    (getGroupMemberIDsKey groupID)
                  = Some \<lparr>val = StringsVal memberIDs, ttl = 43200000000000\<rparr>))"
proof -
  have e: "expireTime (objs w a) = 43200000000000"
    using reachable_ttl [OF assms(1)] assms(2) by (simp add: groupExpireTime_value)
  then have t: "expireTime g = 43200000000000"
    using assms(3) by simp
  have c1: "expireTime (objs (snd (NewGroupCacheRedis gDB gmDB grDB hc w'))
                      (fst (NewGroupCacheRedis gDB gmDB grDB hc w'))) = 43200000000000"
    by (simp add: NewGroupCacheRedis_def alloc_simps groupExpireTime_value)
  have c3: "writesWithTTL 43200000000000 (backend w) (callRead r (objs w a) (backend w))"
    using callRead_writes [of "objs w a" "backend w" r] e by simp
  have c4: "\<forall>k e. backend w k = Some e \<longrightarrow> ttl e = 43200000000000"
    using reachable_ttl [OF assms(1)] by (simp add: groupExpireTime_value)
  have s1: "rc (getGroupInfoKey groupID) = None \<longrightarrow>
          GroupModelInterface.Take (groupDB g) groupID = Inr gv \<longrightarrow>
          GetGroupInfo g rc groupID
            = (Inr gv, rc(getGroupInfoKey groupID
                            \<mapsto> \<lparr>val = GroupVal gv, ttl = 43200000000000\<rparr>))"
    unfolding GetGroupInfo_def by (simp add: getCache_miss_stores codec_encs t)
  have s2: "rc (getGroupMemberIDsKey groupID) = None \<longrightarrow>
          FindMemberUserID (groupMemberDB g) groupID = Inr ids \<longrightarrow>
          GetGroupMemberIDs g rc groupID
            = (Inr ids, rc(getGroupMemberIDsKey groupID
                             \<mapsto> \<lparr>val = StringsVal ids, ttl = 43200000000000\<rparr>))"
    unfolding GetGroupMemberIDs_def by (simp add: getCache_miss_stores codec_encs t)
  have s3: "rc (getGroupMembersHashKey groupID) = None \<longrightarrow>
          hashCode g = Some f \<longrightarrow> f groupID = Inr h \<longrightarrow>
          GetGroupMembersHash g rc groupID
            = (Inr h, rc(getGroupMembersHashKey groupID
                           \<mapsto> \<lparr>val = Uint64Val h, ttl = 43200000000000\<rparr>))"
    unfolding GetGroupMembersHash_def by (simp add: getCache_miss_stores codec_encs t)
  have s4: "rc (getGroupMemberInfoKey groupID userID) = None \<longrightarrow>
          GroupMemberModelInterface.Take (groupMemberDB g) groupID userID = Inr mv \<longrightarrow>
          GetGroupMemberInfo g rc groupID userID
            = (Inr mv, rc(getGroupMemberInfoKey groupID userID
                            \<mapsto> \<lparr>val = MemberVal mv, ttl = 43200000000000\<rparr>))"
    unfolding GetGroupMemberInfo_def by (simp add: getCache_miss_stores codec_encs t)
  have s5: "rc (getJoinedGroupsKey userID) = None \<longrightarrow>
          FindUserJoinedGroupID (groupMemberDB g) userID = Inr joined \<longrightarrow>
          GetJoinedGroupIDs g rc userID
            = (Inr joined, rc(getJoinedGroupsKey userID
                                \<mapsto> \<lparr>val = StringsVal joined, ttl = 43200000000000\<rparr>))"
    unfolding GetJoinedGroupIDs_def by (simp add: getCache_miss_stores codec_encs t)
  have s6: "rc (getGroupMemberNumKey groupID) = None \<longrightarrow>
          TakeGroupMemberNum (groupMemberDB g) groupID = Inr n \<longrightarrow>
          GetGroupMemberNum g rc groupID
            = (Inr n, rc(getGroupMemberNumKey groupID
                           \<mapsto> \<lparr>val = Int64Val n, ttl = 43200000000000\<rparr>))"
    unfolding GetGroupMemberNum_def by (simp add: getCache_miss_stores codec_encs t)
  have b1: "(\<forall>x \<in> set groupIDs. valueOrNotFound (fst (GetGroupInfo g rc x))) \<longrightarrow>
          (\<exists>gs. fst (GetGroupsInfo g rc groupIDs) = Inr gs)
          \<and> (\<forall>x \<in> set groupIDs. \<forall>v. rc (getGroupInfoKey x) = None \<longrightarrow>
                GroupModelInterface.Take (groupDB g) x = Inr v \<longrightarrow>
                snd (GetGroupsInfo g rc groupIDs) (getGroupInfoKey x)
                  = Some \<lparr>val = GroupVal v, ttl = 43200000000000\<rparr>)"
    using GetGroupsInfo_stores [of groupIDs g rc] unfolding t by blast
  have b2: "(\<forall>u \<in> set userIDs. valueOrNotFound (fst (GetGroupMemberInfo g rc groupID u))) \<longrightarrow>
          (\<exists>ms. fst (GetGroupMembersInfo g rc groupID userIDs) = Inr ms)
          \<and> (\<forall>u \<in> set userIDs. \<forall>v. rc (getGroupMemberInfoKey groupID u) = None \<longrightarrow>
                GroupMemberModelInterface.Take (groupMemberDB g) groupID u = Inr v \<longrightarrow>
                snd (GetGroupMembersInfo g rc groupID userIDs) (getGroupMemberInfoKey groupID u)
                  = Some \<lparr>val = MemberVal v, ttl = 43200000000000\<rparr>)"
    using GetGroupMembersInfo_stores [of userIDs g rc groupID] unfolding t by blast
  have l1: "(\<forall>x \<in> set groupIDs. (\<exists>v. fst (GetGroupMembersHash g rc x) = Inr v)
                              \<and> (\<exists>v. fst (GetGroupMemberNum g rc x) = Inr v)) \<longrightarrow>
          (\<exists>m. fst (GetGroupMemberHashMap g rc groupIDs) = Inr m)
          \<and> (\<forall>x \<in> set groupIDs. \<forall>f v. rc (getGroupMembersHashKey x) = None \<longrightarrow>
                hashCode g = Some f \<longrightarrow> f x = Inr v \<longrightarrow>
                snd (GetGroupMemberHashMap g rc groupIDs) (getGroupMembersHashKey x)
                  = Some \<lparr>val = Uint64Val v, ttl = 43200000000000\<rparr>)
          \<and> (\<forall>x \<in> set groupIDs. \<forall>v. rc (getGroupMemberNumKey x) = None \<longrightarrow>
                TakeGroupMemberNum (groupMemberDB g) x = Inr v \<longrightarrow>
                snd (GetGroupMemberHashMap g rc groupIDs) (getGroupMemberNumKey x)
                  = Some \<lparr>val = Int64Val v, ttl = 43200000000000\<rparr>)"
    using hashMapLoop_stores [of groupIDs g rc Map.empty]
    unfolding t GetGroupMemberHashMap_def by blast
  have l2: "(\<forall>x \<in> set groupIDs. \<exists>v. fst (GetGroupMemberIDs g rc x) = Inr v) \<longrightarrow>
          (\<exists>m. fst (GetGroupsMemberIDs g rc groupIDs) = Inr m)
          \<and> (\<forall>x \<in> set groupIDs. \<forall>v. rc (getGroupMemberIDsKey x) = None \<longrightarrow>
                FindMemberUserID (groupMemberDB g) x = Inr v \<longrightarrow>
                snd (GetGroupsMemberIDs g rc groupIDs) (getGroupMemberIDsKey x)
                  = Some \<lparr>val = StringsVal v, ttl = 43200000000000\<rparr>)"
    using memberIDsLoop_stores [of groupIDs g rc Map.empty]
    unfolding t GetGroupsMemberIDs_def by blast
  have a1: "GetGroupMemberIDs g rc groupID = (Inr memberIDs, rcIDs) \<longrightarrow>
          (\<forall>u \<in> set memberIDs. valueOrNotFound (fst (GetGroupMemberInfo g rc groupID u))) \<longrightarrow>
          (\<exists>ms. fst (GetAllGroupMembersInfo g rc groupID) = Inr ms)
          \<and> (\<forall>u \<in> set memberIDs. \<forall>v. rc (getGroupMemberInfoKey groupID u) = None \<longrightarrow>
                GroupMemberModelInterface.Take (groupMemberDB g) groupID u = Inr v \<longrightarrow>
                snd (GetAllGroupMembersInfo g rc groupID) (getGroupMemberInfoKey groupID u)
                  = Some \<lparr>val = MemberVal v, ttl = 43200000000000\<rparr>)
          \<and> (rc (getGroupMemberIDsKey groupID) = None \<longrightarrow>
                snd (GetAllGroupMembersInfo g rc groupID) (getGroupMemberIDsKey groupID)
                  = Some \<lparr>val = StringsVal memberIDs, ttl = 43200000000000\<rparr>)"
  proof (intro impI)
    assume i: "GetGroupMemberIDs g rc groupID = (Inr memberIDs, rcIDs)"
      and ok: "\<forall>u \<in> set memberIDs. valueOrNotFound (fst (GetGroupMemberInfo g rc groupID u))"
    show "(\<exists>ms. fst (GetAllGroupMembersInfo g rc groupID) = Inr ms)
          \<and> (\<forall>u \<in> set memberIDs. \<forall>v. rc (getGroupMemberInfoKey groupID u) = None \<longrightarrow>
                GroupMemberModelInterface.Take (groupMemberDB g) groupID u = Inr v \<longrightarrow>
                snd (GetAllGroupMembersInfo g rc groupID) (getGroupMemberInfoKey groupID u)
                  = Some \<lparr>val = MemberVal v, ttl = 43200000000000\<rparr>)
          \<and> (rc (getGroupMemberIDsKey groupID) = None \<longrightarrow>
                snd (GetAllGroupMembersInfo g rc groupID) (getGroupMemberIDsKey groupID)
                  = Some \<lparr>val = StringsVal memberIDs, ttl = 43200000000000\<rparr>)"
      unfolding GetAllGroupMembersInfo_eq [OF i]
      using ids_then_members_stores [OF i ok] unfolding t .
  qed
  have same: "GetAllGroupMemberInfo g rc groupID = GetAllGroupMembersInfo g rc groupID"
    by (simp add: GetAllGroupMemberInfo_def GetAllGroupMembersInfo_def)
  have a2: "GetGroupMemberIDs g rc groupID = (Inr memberIDs, rcIDs) \<longrightarrow>
          (\<forall>u \<in> set memberIDs. valueOrNotFound (fst (GetGroupMemberInfo g rc groupID u))) \<longrightarrow>
          (\<exists>ms. fst (GetAllGroupMemberInfo g rc groupID) = Inr ms)
          \<and> (\<forall>u \<in> set memberIDs. \<forall>v. rc (getGroupMemberInfoKey groupID u) = None \<longrightarrow>
                GroupMemberModelInterface.Take (groupMemberDB g) groupID u = Inr v \<longrightarrow>
                snd (GetAllGroupMemberInfo g rc groupID) (getGroupMemberInfoKey groupID u)
                  = Some \<lparr>val = MemberVal v, ttl = 43200000000000\<rparr>)
          \<and> (rc (getGroupMemberIDsKey groupID) = None \<longrightarrow>
                snd (GetAllGroupMemberInfo g rc groupID) (getGroupMemberIDsKey groupID)
                  = Some \<lparr>val = StringsVal memberIDs, ttl = 43200000000000\<rparr>)"
    unfolding same by (rule a1)
  have p: "GetGroupMemberIDs g rc groupID = (Inr memberIDs, rcIDs) \<longrightarrow>
          (\<forall>u \<in> set (Paginate (pageCandidates candidates memberIDs)
                          (sint showNumber) (sint showNumber)).
              valueOrNotFound (fst (GetGroupMemberInfo g rc groupID u))) \<longrightarrow>
          snd (snd (fst (GetGroupMembersPage g rc groupID candidates showNumber pageNumber))) = None
          \<and> (\<forall>u \<in> set (Paginate (pageCandidates candidates memberIDs)
                            (sint showNumber) (sint showNumber)).
                \<forall>v. rc (getGroupMemberInfoKey groupID u) = None \<longrightarrow>
                GroupMemberModelInterface.Take (groupMemberDB g) groupID u = Inr v \<longrightarrow>
                snd (GetGroupMembersPage g rc groupID candidates showNumber pageNumber)
                    (getGroupMemberInfoKey groupID u)
                  = Some \<lparr>val = MemberVal v, ttl = 43200000000000\<rparr>)
          \<and> (rc (getGroupMemberIDsKey groupID) = None \<longrightarrow>
                snd (GetGroupMembersPage g rc groupID candidates showNumber pageNumber)
                    (getGroupMemberIDsKey groupID)
                  = Some \<lparr>val = StringsVal memberIDs, ttl = 43200000000000\<rparr>)"
  proof (intro impI)
    let ?page = "Paginate (pageCandidates candidates memberIDs) (sint showNumber) (sint showNumber)"
    assume i: "GetGroupMemberIDs g rc groupID = (Inr memberIDs, rcIDs)"
      and ok: "\<forall>u \<in> set ?page. valueOrNotFound (fst (GetGroupMemberInfo g rc groupID u))"
    note m = ids_then_members_stores [OF i ok]
    from m obtain ms where ms: "fst (GetGroupMembersInfo g rcIDs groupID ?page) = Inr ms"
      by blast
    have r: "snd (snd (fst (GetGroupMembersPage g rc groupID candidates showNumber pageNumber)))
               = None"
      by (simp add: GetGroupMembersPage_err [OF i ms])
    show "snd (snd (fst (GetGroupMembersPage g rc groupID candidates showNumber pageNumber))) = None
          \<and> (\<forall>u \<in> set ?page.
                \<forall>v. rc (getGroupMemberInfoKey groupID u) = None \<longrightarrow>
                GroupMemberModelInterface.Take (groupMemberDB g) groupID u = Inr v \<longrightarrow>
                snd (GetGroupMembersPage g rc groupID candidates showNumber pageNumber)
                    (getGroupMemberInfoKey groupID u)
                  = Some \<lparr>val = MemberVal v, ttl = 43200000000000\<rparr>)
          \<and> (rc (getGroupMemberIDsKey groupID) = None \<longrightarrow>
                snd (GetGroupMembersPage g rc groupID candidates showNumber pageNumber)
                    (getGroupMemberIDsKey groupID)
                  = Some \<lparr>val = StringsVal memberIDs, ttl = 43200000000000\<rparr>)"
      unfolding GetGroupMembersPage_snd [OF i]
      using m r unfolding t GetGroupMembersPage_snd [OF i] by blast
  qed
  show ?thesis
    by (intro conjI) (rule c1 e c3 c4 s1 s2 s3 s4 s5 s6 b1 b2 l1 l2 a1 a2 p)+
qed

lemma ex_lookups_accepted:
  "valueOrNotFound (fst (GetGroupInfo exCache Map.empty x))"
  "valueOrNotFound (fst (GetGroupMemberInfo exCache Map.empty groupID u))"
  by (simp_all add: GetGroupInfo_def GetGroupMemberInfo_def getCache_def exCache_simps
      exGroupDB_def exMemberDB_def valueOrNotFound_def)

lemma ex_lookups_succeed:
  "\<exists>v. fst (GetGroupMembersHash exCache Map.empty x) = Inr v"
  "\<exists>v. fst (GetGroupMemberNum exCache Map.empty x) = Inr v"
  "\<exists>v. fst (GetGroupMemberIDs exCache Map.empty x) = Inr v"
  by (simp_all add: GetGroupMembersHash_def GetGroupMemberNum_def GetGroupMemberIDs_def
      getCache_def exCache_simps exHashCode_def exMemberDB_def)

theorem every_read_stores_with_twelve_hours_witness:
  "reachable exWorld \<and> 0 < nextObj exWorld
   \<and> expireTime (objs exWorld 0) = 43200000000000
   \<and> callRead (CallGetGroupInfo ''g1'') (objs exWorld 0) (backend exWorld) ''GROUP_INFO:g1''
       = Some \<lparr>val = GroupVal \<lparr>GroupModel.GroupID = ''g1''\<rparr>, ttl = 43200000000000\<rparr>
   \<and> writesWithTTL 43200000000000 (backend exWorld)
       (callRead (CallGetGroupInfo ''g1'') (objs exWorld 0) (backend exWorld))
   \<and> GetGroupInfo exCache Map.empty ''g1''
       = (Inr \<lparr>GroupModel.GroupID = ''g1''\<rparr>,
          [getGroupInfoKey ''g1''
             \<mapsto> \<lparr>val = GroupVal \<lparr>GroupModel.GroupID = ''g1''\<rparr>, ttl = 43200000000000\<rparr>])
   \<and> GetGroupMemberIDs exCache Map.empty ''g1''
       = (Inr exMemberIDs,
          [getGroupMemberIDsKey ''g1'' \<mapsto> \<lparr>val = StringsVal exMemberIDs, ttl = 43200000000000\<rparr>])
   \<and> GetGroupMembersHash exCache Map.empty ''g1''
       = (Inr 7, [getGroupMembersHashKey ''g1'' \<mapsto> \<lparr>val = Uint64Val 7, ttl = 43200000000000\<rparr>])
   \<and> GetGroupMemberInfo exCache Map.empty ''g1'' ''u1''
       = (Inr \<lparr>GroupID = ''g1'', UserID = ''u1''\<rparr>,
          [getGroupMemberInfoKey ''g1'' ''u1''
             \<mapsto> \<lparr>val = MemberVal \<lparr>GroupID = ''g1'', UserID = ''u1''\<rparr>, ttl = 43200000000000\<rparr>])
   \<and> GetJoinedGroupIDs exCache Map.empty ''u1''
       = (Inr [''g1''],
          [getJoinedGroupsKey ''u1'' \<mapsto> \<lparr>val = StringsVal [''g1''], ttl = 43200000000000\<rparr>])
   \<and> GetGroupMemberNum exCache Map.empty ''g1''
       = (Inr 10, [getGroupMemberNumKey ''g1'' \<mapsto> \<lparr>val = Int64Val 10, ttl = 43200000000000\<rparr>])
   \<and> snd (GetGroupsInfo exCache Map.empty [''g1'', ''g2'']) (getGroupInfoKey ''g2'')
       = Some \<lparr>val = GroupVal \<lparr>GroupModel.GroupID = ''g2''\<rparr>, ttl = 43200000000000\<rparr>
   \<and> snd (GetGroupMembersInfo exCache Map.empty ''g1'' [''u1'', ''u2''])
         (getGroupMemberInfoKey ''g1'' ''u2'')
       = Some \<lparr>val = MemberVal \<lparr>GroupID = ''g1'', UserID = ''u2''\<rparr>, ttl = 43200000000000\<rparr>
   \<and> snd (GetGroupMemberHashMap exCache Map.empty [''g1'', ''g2'']) (getGroupMemberNumKey ''g2'')
       = Some \<lparr>val = Int64Val 10, ttl = 43200000000000\<rparr>
   \<and> snd (GetGroupsMemberIDs exCache Map.empty [''g1'', ''g2'']) (getGroupMemberIDsKey ''g2'')
       = Some \<lparr>val = StringsVal exMemberIDs, ttl = 43200000000000\<rparr>
   \<and> snd (GetAllGroupMembersInfo exCache Map.empty ''g1'') (getGroupMemberInfoKey ''g1'' ''u3'')
       = Some \<lparr>val = MemberVal \<lparr>GroupID = ''g1'', UserID = ''u3''\<rparr>, ttl = 43200000000000\<rparr>
   \<and> snd (GetAllGroupMemberInfo exCache Map.empty ''g1'') (getGroupMemberIDsKey ''g1'')
       = Some \<lparr>val = StringsVal exMemberIDs, ttl = 43200000000000\<rparr>
   \<and> snd (GetGroupMembersPage exCache Map.empty ''g1'' None 3 1) (getGroupMemberInfoKey ''g1'' ''u9'')
       = Some \<lparr>val = MemberVal \<lparr>GroupID = ''g1'', UserID = ''u9''\<rparr>, ttl = 43200000000000\<rparr>"
proof -
  have "reachable exEmpty"
    unfolding exEmpty_def by (rule reachable.start)
  then have r: "reachable exWorld"
    unfolding exWorld_def by (rule reachable.construct)
  have l: "0 < nextObj exWorld" by (simp add: exWorld_simps)
  note t = every_read_stores_with_twelve_hours [OF r l exCache_def exWorld_simps(2) [symmetric],
      where r = "CallGetGroupInfo ''g1''" and groupID = "''g1''" and userID = "''u1''"
        and gv = "\<lparr>GroupModel.GroupID = ''g1''\<rparr>" and ids = exMemberIDs
        and f = exHashCode and h = 7 and n = 10
        and joined = "[''g1'']" and mv = "\<lparr>GroupID = ''g1'', UserID = ''u1''\<rparr>"
        and groupIDs = "[''g1'', ''g2'']" and userIDs = "[''u1'', ''u2'']"
        and memberIDs = exMemberIDs
        and rcIDs = "[getGroupMemberIDsKey ''g1''
                        \<mapsto> \<lparr>val = StringsVal exMemberIDs, ttl = groupExpireTime\<rparr>]"
        and candidates = None and showNumber = 3 and pageNumber = 1]
  note rest = t [THEN conjunct2, THEN conjunct2, THEN conjunct2, THEN conjunct2]
  note s1 = rest [THEN conjunct1]
  note s2 = rest [THEN conjunct2, THEN conjunct1]
  note s3 = rest [THEN conjunct2, THEN conjunct2, THEN conjunct1]
  note s4 = rest [THEN conjunct2, THEN conjunct2, THEN conjunct2, THEN conjunct1]
  note s5 = rest [THEN conjunct2, THEN conjunct2, THEN conjunct2, THEN conjunct2, THEN conjunct1]
  note s6 = rest [THEN conjunct2, THEN conjunct2, THEN conjunct2, THEN conjunct2,
      THEN conjunct2, THEN conjunct1]
  note rest2 = rest [THEN conjunct2, THEN conjunct2, THEN conjunct2, THEN conjunct2,
      THEN conjunct2, THEN conjunct2]
  note b1 = rest2 [THEN conjunct1]
  note b2 = rest2 [THEN conjunct2, THEN conjunct1]
  note l1 = rest2 [THEN conjunct2, THEN conjunct2, THEN conjunct1]
  note l2 = rest2 [THEN conjunct2, THEN conjunct2, THEN conjunct2, THEN conjunct1]
  note a1 = rest2 [THEN conjunct2, THEN conjunct2, THEN conjunct2, THEN conjunct2, THEN conjunct1]
  note a2 = rest2 [THEN conjunct2, THEN conjunct2, THEN conjunct2, THEN conjunct2,
      THEN conjunct2, THEN conjunct1]
  note p = rest2 [THEN conjunct2, THEN conjunct2, THEN conjunct2, THEN conjunct2,
      THEN conjunct2, THEN conjunct2]
  have e: "expireTime (objs exWorld 0) = 43200000000000"
    using t by blast
  have w: "writesWithTTL 43200000000000 (backend exWorld)
       (callRead (CallGetGroupInfo ''g1'') (objs exWorld 0) (backend exWorld))"
    using t by blast
  have v: "callRead (CallGetGroupInfo ''g1'') (objs exWorld 0) (backend exWorld) ''GROUP_INFO:g1''
       = Some \<lparr>val = GroupVal \<lparr>GroupModel.GroupID = ''g1''\<rparr>, ttl = 43200000000000\<rparr>"
    using exWarm_simps(3) by (simp add: exWarm_def groupExpireTime_value)
  have w1: "GetGroupInfo exCache Map.empty ''g1''
       = (Inr \<lparr>GroupModel.GroupID = ''g1''\<rparr>,
          [getGroupInfoKey ''g1''
             \<mapsto> \<lparr>val = GroupVal \<lparr>GroupModel.GroupID = ''g1''\<rparr>, ttl = 43200000000000\<rparr>])"
    using s1 by (simp add: exCache_simps exGroupDB_def)
  have w2: "GetGroupMemberIDs exCache Map.empty ''g1''
       = (Inr exMemberIDs,
          [getGroupMemberIDsKey ''g1'' \<mapsto> \<lparr>val = StringsVal exMemberIDs, ttl = 43200000000000\<rparr>])"
    using s2 by (simp add: exCache_simps exMemberDB_def)
  have w3: "GetGroupMembersHash exCache Map.empty ''g1''
       = (Inr 7, [getGroupMembersHashKey ''g1'' \<mapsto> \<lparr>val = Uint64Val 7, ttl = 43200000000000\<rparr>])"
    using s3 by (simp add: exCache_simps exHashCode_def)
  have w4: "GetGroupMemberInfo exCache Map.empty ''g1'' ''u1''
       = (Inr \<lparr>GroupID = ''g1'', UserID = ''u1''\<rparr>,
          [getGroupMemberInfoKey ''g1'' ''u1''
             \<mapsto> \<lparr>val = MemberVal \<lparr>GroupID = ''g1'', UserID = ''u1''\<rparr>, ttl = 43200000000000\<rparr>])"
    using s4 by (simp add: exCache_simps exMemberDB_def)
  have w5: "GetJoinedGroupIDs exCache Map.empty ''u1''
       = (Inr [''g1''],
          [getJoinedGroupsKey ''u1'' \<mapsto> \<lparr>val = StringsVal [''g1''], ttl = 43200000000000\<rparr>])"
    using s5 by (simp add: exCache_simps exMemberDB_def)
  have w6: "GetGroupMemberNum exCache Map.empty ''g1''
       = (Inr 10, [getGroupMemberNumKey ''g1'' \<mapsto> \<lparr>val = Int64Val 10, ttl = 43200000000000\<rparr>])"
    using s6 by (simp add: exCache_simps exMemberDB_def)
  have w7: "snd (GetGroupsInfo exCache Map.empty [''g1'', ''g2'']) (getGroupInfoKey ''g2'')
       = Some \<lparr>val = GroupVal \<lparr>GroupModel.GroupID = ''g2''\<rparr>, ttl = 43200000000000\<rparr>"
    using b1 by (simp add: ex_lookups_accepted exCache_simps exGroupDB_def)
  have w8: "snd (GetGroupMembersInfo exCache Map.empty ''g1'' [''u1'', ''u2''])
         (getGroupMemberInfoKey ''g1'' ''u2'')
       = Some \<lparr>val = MemberVal \<lparr>GroupID = ''g1'', UserID = ''u2''\<rparr>, ttl = 43200000000000\<rparr>"
    using b2 by (simp add: ex_lookups_accepted exCache_simps exMemberDB_def)
  have w9: "snd (GetGroupMemberHashMap exCache Map.empty [''g1'', ''g2'']) (getGroupMemberNumKey ''g2'')
       = Some \<lparr>val = Int64Val 10, ttl = 43200000000000\<rparr>"
    using l1 by (simp add: ex_lookups_succeed exCache_simps exMemberDB_def)
  have w10: "snd (GetGroupsMemberIDs exCache Map.empty [''g1'', ''g2'']) (getGroupMemberIDsKey ''g2'')
       = Some \<lparr>val = StringsVal exMemberIDs, ttl = 43200000000000\<rparr>"
    using l2 by (simp add: ex_lookups_succeed exCache_simps exMemberDB_def)
  have u3: "''u3'' \<in> set exMemberIDs" by (simp add: exMemberIDs_def)
  have w11: "snd (GetAllGroupMembersInfo exCache Map.empty ''g1'') (getGroupMemberInfoKey ''g1'' ''u3'')
       = Some \<lparr>val = MemberVal \<lparr>GroupID = ''g1'', UserID = ''u3''\<rparr>, ttl = 43200000000000\<rparr>"
    using a1 ex_GetGroupMemberIDs u3
    by (simp add: ex_lookups_accepted exCache_simps exMemberDB_def)
  have w12: "snd (GetAllGroupMemberInfo exCache Map.empty ''g1'') (getGroupMemberIDsKey ''g1'')
       = Some \<lparr>val = StringsVal exMemberIDs, ttl = 43200000000000\<rparr>"
    using a2 ex_GetGroupMemberIDs
    by (simp add: ex_lookups_accepted)
  have pg: "Paginate (pageCandidates None exMemberIDs) (sint (3 :: 32 word)) (sint (3 :: 32 word))
              = [''u9'']"
    by (simp add: pageCandidates_def Paginate_def exMemberIDs_def)
  have w13: "snd (GetGroupMembersPage exCache Map.empty ''g1'' None 3 1)
                (getGroupMemberInfoKey ''g1'' ''u9'')
       = Some \<lparr>val = MemberVal \<lparr>GroupID = ''g1'', UserID = ''u9''\<rparr>, ttl = 43200000000000\<rparr>"
    using p ex_GetGroupMemberIDs unfolding pg
    by (simp add: ex_lookups_accepted exCache_simps exMemberDB_def)
  show ?thesis
    by (intro conjI) (rule r l e v w w1 w2 w3 w4 w5 w6 w7 w8 w9 w10 w11 w12 w13)+
qed

end
